theory Spec2Isabelle
  imports Complex_Main "HOL-Library.Word"
begin

text \<open>
  The validation core of the patient registration form: the identifier and phone
  validators of \<open>src/lib/validators.ts\<close>, the record schema of \<open>src/lib/schema.ts\<close> with
  its main-phone rule, and the short-query guard of the lookup client in
  \<open>src/lib/api.ts\<close>. Definitions come first, in the order of the sources; the properties
  follow.
\<close>

section \<open>JavaScript strings\<close>

text \<open>
  A JavaScript string is a sequence of UTF-16 code units; \<open>length\<close>, indexing, the
  regular expression classes \<open>\d\<close> and \<open>\D\<close> and \<open>trim\<close> all work on code units.
  \<open>js\<close> turns an ASCII literal into such a sequence.
\<close>

type_synonym jschar = "16 word"
type_synonym jsstring = "jschar list"

definition js :: "string \<Rightarrow> jsstring" where
  "js s = map (\<lambda>c. of_char c) s"

text \<open>\<open>\d\<close> without the unicode flag: the ten ASCII digits, U+0030 to U+0039.\<close>

definition is_digit :: "jschar \<Rightarrow> bool" where
  "is_digit c = (48 \<le> c \<and> c \<le> 57)"

text \<open>
  \<open>Number(id[i])\<close> for a one-character string holding an ASCII digit (the only
  characters that reach it behind the guard of \<open>isValidIsraeliId\<close>).
\<close>

definition digit_value :: "jschar \<Rightarrow> nat" where
  "digit_value c = unat c - 48"

section \<open>Regular expressions of \<open>src/lib/validators.ts\<close>\<close>

text \<open>
  The fragment of regular expressions the validators use: a literal character, the class
  \<open>\d\<close>, a range \<open>[a-b]\<close>, alternation, concatenation and the empty expression; a counted
  repetition \<open>r{n}\<close> is \<open>repeat_re n r\<close>. \<open>rmatch r s\<close> lists the rests of \<open>s\<close> after every way
  of matching \<open>r\<close> at its start (the backtracking matcher's choice points, in order), and
  an expression anchored with \<open>^\<close> and \<open>$\<close> matches when some way leaves nothing.
\<close>

datatype regex =
    Eps
  | Chr jschar
  | Digit
  | CharRange jschar jschar
  | Alt regex regex
  | Seq regex regex

fun rmatch :: "regex \<Rightarrow> jsstring \<Rightarrow> jsstring list" where
  "rmatch Eps s = [s]"
| "rmatch (Chr a) [] = []"
| "rmatch (Chr a) (c # t) = (if c = a then [t] else [])"
| "rmatch Digit [] = []"
| "rmatch Digit (c # t) = (if is_digit c then [t] else [])"
| "rmatch (CharRange lo hi) [] = []"
| "rmatch (CharRange lo hi) (c # t) = (if lo \<le> c \<and> c \<le> hi then [t] else [])"
| "rmatch (Alt r1 r2) s = rmatch r1 s @ rmatch r2 s"
| "rmatch (Seq r1 r2) s = concat (map (rmatch r2) (rmatch r1 s))"

primrec repeat_re :: "nat \<Rightarrow> regex \<Rightarrow> regex" where
  "repeat_re 0 r = Eps"
| "repeat_re (Suc n) r = Seq r (repeat_re n r)"

definition regex_test :: "regex \<Rightarrow> jsstring \<Rightarrow> bool" where
  "regex_test r s = ([] \<in> set (rmatch r s))"

section \<open>\<open>isValidIsraeliId\<close>\<close>

text \<open>
  \<^verbatim>\<open>
  export function isValidIsraeliId(id: string): boolean {
      if (!id || id.length !== 9 || !/^\d{9}$/.test(id)) { return false; }
      let sum = 0;
      for (let i = 0; i < 9; i++) {
          let digit = Number(id[i]);
          let step = digit * ((i % 2) + 1);
          sum += step > 9 ? step - 9 : step;
      }
      return sum % 10 === 0;
  }
  \<close>
  The argument is \<open>None\<close> for \<open>null\<close> or \<open>undefined\<close>, which \<open>!id\<close> rejects together
  with the empty string. The loop is reached only with nine characters, so \<open>id' ! i\<close> is
  in range for every \<open>i < 9\<close>.
\<close>

function id_loop :: "jsstring \<Rightarrow> nat \<Rightarrow> nat \<Rightarrow> nat" where
  "id_loop id' i sm =
     (if i < 9 then
        (let digit = digit_value (id' ! i);
             step = digit * ((i mod 2) + 1)
         in id_loop id' (i + 1) (sm + (if step > 9 then step - 9 else step)))
      else sm)"
  by pat_completeness auto
termination
  by (relation "measure (\<lambda>(id', i, sm). 9 - i)") auto

declare id_loop.simps [simp del]

definition isValidIsraeliId :: "jsstring option \<Rightarrow> bool" where
  "isValidIsraeliId id' =
     (case id' of
        None \<Rightarrow> False
      | Some s \<Rightarrow>
          if s = [] \<or> length s \<noteq> 9 \<or> \<not> regex_test (repeat_re 9 Digit) s then False
          else id_loop s 0 0 mod 10 = 0)"

subsection \<open>The checksum as the specification words it\<close>

text \<open>
  For each of the nine positions (counted from 0) the digit is multiplied by 1 at an even
  position and by 2 at an odd one, 9 is subtracted from a product above 9, and the nine
  adjusted values are summed; the identifier is valid when it has exactly nine ASCII
  digits and the sum is divisible by 10.
\<close>

definition spec_adjusted :: "nat \<Rightarrow> jschar \<Rightarrow> nat" where
  "spec_adjusted i c =
     (let product = digit_value c * (if even i then 1 else 2)
      in if product > 9 then product - 9 else product)"

definition spec_checksum :: "jsstring \<Rightarrow> nat" where
  "spec_checksum s = (\<Sum>i = 0..<9. spec_adjusted i (s ! i))"

definition spec_israeli_id :: "jsstring \<Rightarrow> bool" where
  "spec_israeli_id s = (length s = 9 \<and> list_all is_digit s \<and> spec_checksum s mod 10 = 0)"

section \<open>\<open>isValidIsraeliPhoneNumber\<close>\<close>

text \<open>
  \<^verbatim>\<open>
  export function isValidIsraeliPhoneNumber(phone: string): boolean {
      if (!phone) { return false; }
      const cleaned = phone.replace(/\D/g, "");
      const israelPhoneRegex = /^(0(2|3|4|5[0-9]|7[1-9]|8|9))\d{7}$/;
      return israelPhoneRegex.test(cleaned);
  }
  \<close>
\<close>

definition cleaned :: "jsstring \<Rightarrow> jsstring" where
  "cleaned phone = filter is_digit phone"

definition israelPhoneRegex :: regex where
  "israelPhoneRegex =
     Seq (Seq (Chr 48)
            (Alt (Chr 50) (Alt (Chr 51) (Alt (Chr 52)
              (Alt (Seq (Chr 53) (CharRange 48 57))
                (Alt (Seq (Chr 55) (CharRange 49 57))
                  (Alt (Chr 56) (Chr 57))))))))
         (repeat_re 7 Digit)"

definition isValidIsraeliPhoneNumber :: "jsstring option \<Rightarrow> bool" where
  "isValidIsraeliPhoneNumber phone =
     (case phone of
        None \<Rightarrow> False
      | Some s \<Rightarrow> if s = [] then False else regex_test israelPhoneRegex (cleaned s))"

subsection \<open>The accepted shape as the specification words it\<close>

text \<open>
  After the leading \<open>0\<close> comes one of the accepted prefixes: \<open>2\<close>, \<open>3\<close>, \<open>4\<close>, \<open>8\<close>, \<open>9\<close>,
  \<open>5\<close> followed by any digit, or \<open>7\<close> followed by a digit 1 to 9; \<open>spec_phone_prefix\<close>
  strips such a prefix and returns what follows it, which must be exactly seven digits.
\<close>

definition spec_phone_prefix :: "jsstring \<Rightarrow> jsstring option" where
  "spec_phone_prefix t =
     (case t of
        [] \<Rightarrow> None
      | c # u \<Rightarrow>
          if c \<in> set (js ''23489'') then Some u
          else if c = 53 then
            (case u of [] \<Rightarrow> None | d # v \<Rightarrow> if is_digit d then Some v else None)
          else if c = 55 then
            (case u of [] \<Rightarrow> None | d # v \<Rightarrow> if 49 \<le> d \<and> d \<le> 57 then Some v else None)
          else None)"

definition spec_domestic_phone :: "jsstring \<Rightarrow> bool" where
  "spec_domestic_phone s =
     (case s of
        [] \<Rightarrow> False
      | z # t \<Rightarrow>
          z = 48 \<and>
          (case spec_phone_prefix t of
             None \<Rightarrow> False
           | Some ds \<Rightarrow> length ds = 7 \<and> list_all is_digit ds))"

section \<open>The schema language of \<open>src/lib/schema.ts\<close>\<close>

text \<open>
  \<open>schema.ts\<close> declares its constraints with the combinators of the zod library (version
  3: \<open>required_error\<close>, \<open>invalid_type_error\<close>, \<open>ZodIssueCode\<close>). The library is not part
  of the repository; each combinator the schema uses is given here the meaning zod's
  parser gives it. A parser receives the path of the value it checks and the raw value,
  appends the issues it finds to the shared issue list, and returns a status with the
  parsed value: \<open>VALID\<close> (no issue so far), \<open>DIRTY\<close> (an issue was recorded, the value is
  still produced and later checks still run) or \<open>ABORTED\<close> (zod's \<open>INVALID\<close>: no value,
  and every refinement wrapped around the value is skipped).

  Raw values carry the static type the form gives them, and \<open>None\<close> stands for
  \<open>undefined\<close>. A required string or enumeration field that holds a value of another
  type is rejected as an undefined one is (\<open>invalid_type\<close>, aborted), so \<open>None\<close> stands
  for both there. \<open>isMain\<close> has a default, which replaces \<open>undefined\<close> only; a defined
  value that is not a boolean (\<open>null\<close>, a string) reaches \<open>z.boolean()\<close> and is rejected,
  so its raw value says which of the two it is.
\<close>

datatype pathelem = Key string | Idx nat

type_synonym path = "pathelem list"

datatype issue_code = invalid_type | invalid_enum_value | too_small | too_big | custom

text \<open>
  A message is the text \<open>schema.ts\<close> passes to the check, or the library's default text
  where the schema passes none.
\<close>

datatype message = Msg string | DefaultMsg

record issue =
  code :: issue_code
  path :: path
  message :: message

datatype 'a parse_status = VALID 'a | DIRTY 'a | ABORTED

type_synonym 'a parsed = "issue list \<times> 'a parse_status"

definition mk_issue :: "issue_code \<Rightarrow> path \<Rightarrow> message \<Rightarrow> issue" where
  "mk_issue c p m = \<lparr>code = c, path = p, message = m\<rparr>"

fun dirty :: "'a parse_status \<Rightarrow> 'a parse_status" where
  "dirty (VALID v) = DIRTY v"
| "dirty (DIRTY v) = DIRTY v"
| "dirty ABORTED = ABORTED"

fun map_status :: "('a \<Rightarrow> 'b) \<Rightarrow> 'a parse_status \<Rightarrow> 'b parse_status" where
  "map_status f (VALID v) = VALID (f v)"
| "map_status f (DIRTY v) = DIRTY (f v)"
| "map_status f ABORTED = ABORTED"

text \<open>
  \<open>ZodObject._parse\<close> parses the value of every key of the shape, in the order of their
  declaration, whatever the results of the keys before it, and then merges the results
  (\<open>ParseStatus.mergeObjectSync\<close>): the object is aborted when a field is aborted and
  dirty when a field is dirty. \<open>field\<close> joins the results of two keys; \<open>object\<close> builds
  the output record from the joined values.
\<close>

fun pair_status :: "'a parse_status \<Rightarrow> 'b parse_status \<Rightarrow> ('a \<times> 'b) parse_status" where
  "pair_status ABORTED _ = ABORTED"
| "pair_status _ ABORTED = ABORTED"
| "pair_status (VALID a) (VALID b) = VALID (a, b)"
| "pair_status (VALID a) (DIRTY b) = DIRTY (a, b)"
| "pair_status (DIRTY a) (VALID b) = DIRTY (a, b)"
| "pair_status (DIRTY a) (DIRTY b) = DIRTY (a, b)"

definition field :: "'a parsed \<Rightarrow> 'b parsed \<Rightarrow> ('a \<times> 'b) parsed" where
  "field a b = (fst a @ fst b, pair_status (snd a) (snd b))"

definition object :: "('a \<Rightarrow> 'b) \<Rightarrow> 'a parsed \<Rightarrow> 'b parsed" where
  "object build r = (fst r, map_status build (snd r))"

text \<open>
  \<open>ParseStatus.mergeArray\<close>: the elements' statuses are folded from the left, starting
  from whether the array's own checks already made the status dirty; the first aborted
  element aborts the array.
\<close>

fun mergeArray :: "bool \<Rightarrow> 'a parse_status list \<Rightarrow> 'a list parse_status" where
  "mergeArray d [] = (if d then DIRTY [] else VALID [])"
| "mergeArray d (ABORTED # rs) = ABORTED"
| "mergeArray d (VALID v # rs) = map_status ((#) v) (mergeArray d rs)"
| "mergeArray d (DIRTY v # rs) = map_status ((#) v) (mergeArray True rs)"

subsection \<open>Strings\<close>

text \<open>
  \<open>String.prototype.trim\<close> removes white space and line terminators from both ends:
  U+0009 to U+000D, U+0020, U+00A0, U+1680, U+2000 to U+200A, U+2028, U+2029, U+202F,
  U+205F, U+3000 and U+FEFF.
\<close>

definition is_js_whitespace :: "jschar \<Rightarrow> bool" where
  "is_js_whitespace c =
     ((9 \<le> c \<and> c \<le> 13) \<or> c = 32 \<or> c = 160 \<or> c = 5760 \<or> (8192 \<le> c \<and> c \<le> 8202)
      \<or> c = 8232 \<or> c = 8233 \<or> c = 8239 \<or> c = 8287 \<or> c = 12288 \<or> c = 65279)"

definition js_trim :: "jsstring \<Rightarrow> jsstring" where
  "js_trim s = rev (dropWhile is_js_whitespace (rev (dropWhile is_js_whitespace s)))"

datatype string_check =
    Min nat message
  | Max nat message
  | Length nat message
  | Trim

text \<open>
  \<open>ZodString._parse\<close>: a value that is not a string aborts with \<open>invalid_type\<close>; otherwise
  the checks run in the order of their declaration, each failed one adding an issue and
  making the status dirty, and \<open>trim\<close> replacing the value.
\<close>

fun string_checks :: "string_check list \<Rightarrow> path \<Rightarrow> jsstring \<Rightarrow> jsstring parsed \<Rightarrow> jsstring parsed"
  where
  "string_checks [] p s acc = (fst acc, map_status (\<lambda>_. s) (snd acc))"
| "string_checks (Min n m # cs) p s (is, st) =
     (if length s < n then string_checks cs p s (is @ [mk_issue too_small p m], dirty st)
      else string_checks cs p s (is, st))"
| "string_checks (Max n m # cs) p s (is, st) =
     (if length s > n then string_checks cs p s (is @ [mk_issue too_big p m], dirty st)
      else string_checks cs p s (is, st))"
| "string_checks (Length n m # cs) p s (is, st) =
     (if length s > n then string_checks cs p s (is @ [mk_issue too_big p m], dirty st)
      else if length s < n then string_checks cs p s (is @ [mk_issue too_small p m], dirty st)
      else string_checks cs p s (is, st))"
| "string_checks (Trim # cs) p s (is, st) = string_checks cs p (js_trim s) (is, st)"

definition z_string :: "string_check list \<Rightarrow> path \<Rightarrow> jsstring option \<Rightarrow> jsstring parsed" where
  "z_string cs p raw =
     (case raw of
        None \<Rightarrow> ([mk_issue invalid_type p DefaultMsg], ABORTED)
      | Some s \<Rightarrow> string_checks cs p s ([], VALID s))"

subsection \<open>Enums, booleans, defaults, optional values\<close>

text \<open>
  \<open>ZodEnum._parse\<close>: \<open>undefined\<close> aborts with \<open>invalid_type\<close> and the schema's
  \<open>required_error\<close>; a string outside the list aborts with \<open>invalid_enum_value\<close>.
\<close>

definition z_enum :: "jsstring list \<Rightarrow> message \<Rightarrow> path \<Rightarrow> jsstring option \<Rightarrow> jsstring parsed" where
  "z_enum values required_error p raw =
     (case raw of
        None \<Rightarrow> ([mk_issue invalid_type p required_error], ABORTED)
      | Some s \<Rightarrow>
          if s \<in> set values then ([], VALID s)
          else ([mk_issue invalid_enum_value p DefaultMsg], ABORTED))"

text \<open>
  A defined raw value where a boolean is expected: a boolean, or a value of another type.
  \<open>ZodBoolean._parse\<close> aborts with \<open>invalid_type\<close> on everything that is not a boolean.
\<close>

datatype raw_boolean = RawBoolean bool | RawNotBoolean

definition z_boolean :: "path \<Rightarrow> raw_boolean option \<Rightarrow> bool parsed" where
  "z_boolean p raw =
     (case raw of
        None \<Rightarrow> ([mk_issue invalid_type p DefaultMsg], ABORTED)
      | Some (RawBoolean b) \<Rightarrow> ([], VALID b)
      | Some RawNotBoolean \<Rightarrow> ([mk_issue invalid_type p DefaultMsg], ABORTED))"

text \<open>\<open>.default(d)\<close>: \<open>undefined\<close> is replaced by \<open>d\<close> before the inner schema runs.\<close>

definition z_default :: "'r \<Rightarrow> (path \<Rightarrow> 'r option \<Rightarrow> 'a parsed) \<Rightarrow> path \<Rightarrow> 'r option \<Rightarrow> 'a parsed"
  where
  "z_default d inner p raw = (case raw of None \<Rightarrow> inner p (Some d) | Some x \<Rightarrow> inner p (Some x))"

text \<open>\<open>.optional()\<close>: \<open>undefined\<close> is accepted as it is.\<close>

definition z_optional :: "(path \<Rightarrow> 'r option \<Rightarrow> 'a parsed) \<Rightarrow> path \<Rightarrow> 'r option \<Rightarrow> 'a option parsed"
  where
  "z_optional inner p raw =
     (case raw of
        None \<Rightarrow> ([], VALID None)
      | Some x \<Rightarrow> (let r = inner p (Some x) in (fst r, map_status Some (snd r))))"

subsection \<open>Numbers\<close>

text \<open>
  A JavaScript number is \<open>NaN\<close>, an infinity or a finite double, which is a rational
  number; the schema only asks whether the number is an integer and compares it with 0
  and 1, so the finite ones are represented by their value.
\<close>

datatype jsnum = NaN | PosInfinity | NegInfinity | Finite rat

text \<open>\<open>Number.isInteger\<close>.\<close>

fun isInteger :: "jsnum \<Rightarrow> bool" where
  "isInteger (Finite q) = (rat_of_int \<lfloor>q\<rfloor> = q)"
| "isInteger _ = False"

text \<open>\<open>data < value\<close> and \<open>data <= value\<close> for a finite \<open>value\<close>.\<close>

fun num_less :: "jsnum \<Rightarrow> rat \<Rightarrow> bool" where
  "num_less (Finite q) v = (q < v)"
| "num_less NegInfinity v = True"
| "num_less PosInfinity v = False"
| "num_less NaN v = False"

fun num_le :: "jsnum \<Rightarrow> rat \<Rightarrow> bool" where
  "num_le (Finite q) v = (q \<le> v)"
| "num_le NegInfinity v = True"
| "num_le PosInfinity v = False"
| "num_le NaN v = False"

text \<open>
  The raw value of a coerced number field: \<open>undefined\<close>, a number or a string. \<open>Number(x)\<close>
  is \<open>NaN\<close> for \<open>undefined\<close>, \<open>x\<close> for a number, and for a string whatever the
  language's string-to-number conversion gives, which is a parameter here.
\<close>

datatype raw_number = RawUndefined | RawNumber jsnum | RawString jsstring

fun js_Number :: "(jsstring \<Rightarrow> jsnum) \<Rightarrow> raw_number \<Rightarrow> jsnum" where
  "js_Number string_to_number RawUndefined = NaN"
| "js_Number string_to_number (RawNumber n) = n"
| "js_Number string_to_number (RawString s) = string_to_number s"

datatype number_check =
    IntCheck message
  | MinCheck rat bool message

text \<open>
  \<open>ZodNumber._parse\<close> with \<open>coerce\<close>: the input is replaced by \<open>Number(input)\<close>; \<open>NaN\<close>
  aborts with \<open>invalid_type\<close> and the schema's \<open>invalid_type_error\<close>; then every check
  runs, \<open>int\<close> failing with \<open>invalid_type\<close> and \<open>min\<close> (inclusive or not) with \<open>too_small\<close>.
\<close>

fun number_checks :: "number_check list \<Rightarrow> path \<Rightarrow> jsnum \<Rightarrow> jsnum parsed \<Rightarrow> jsnum parsed" where
  "number_checks [] p n acc = acc"
| "number_checks (IntCheck m # cs) p n (is, st) =
     (if \<not> isInteger n then number_checks cs p n (is @ [mk_issue invalid_type p m], dirty st)
      else number_checks cs p n (is, st))"
| "number_checks (MinCheck v inclusive m # cs) p n (is, st) =
     (if (if inclusive then num_less n v else num_le n v)
      then number_checks cs p n (is @ [mk_issue too_small p m], dirty st)
      else number_checks cs p n (is, st))"

definition z_coerce_number ::
  "(jsstring \<Rightarrow> jsnum) \<Rightarrow> message \<Rightarrow> number_check list \<Rightarrow> path \<Rightarrow> raw_number \<Rightarrow> jsnum parsed"
  where
  "z_coerce_number string_to_number invalid_type_error cs p raw =
     (let n = js_Number string_to_number raw
      in if n = NaN then ([mk_issue invalid_type p invalid_type_error], ABORTED)
         else number_checks cs p n ([], VALID n))"

subsection \<open>Refinements\<close>

text \<open>
  \<open>.refine(check, {message})\<close>: when the inner schema aborted, the check is skipped;
  otherwise it runs on the inner value, also when that is already dirty, and a false
  result adds a \<open>custom\<close> issue at the value's path.
\<close>

definition refine ::
  "('a \<Rightarrow> bool) \<Rightarrow> message \<Rightarrow> (path \<Rightarrow> 'r \<Rightarrow> 'a parsed) \<Rightarrow> path \<Rightarrow> 'r \<Rightarrow> 'a parsed" where
  "refine check m inner p raw =
     (case inner p raw of
        (is, ABORTED) \<Rightarrow> (is, ABORTED)
      | (is, DIRTY v) \<Rightarrow> if check v then (is, DIRTY v) else (is @ [mk_issue custom p m], DIRTY v)
      | (is, VALID v) \<Rightarrow> if check v then (is, VALID v) else (is @ [mk_issue custom p m], DIRTY v))"

text \<open>
  \<open>.superRefine(f)\<close>: as \<open>refine\<close>, but \<open>f\<close> adds the issues itself through
  \<open>ctx.addIssue\<close>; each gets the value's path in front of the path \<open>f\<close> gave it, and
  makes the status dirty.
\<close>

definition superRefine ::
  "('a \<Rightarrow> issue list) \<Rightarrow> (path \<Rightarrow> 'r \<Rightarrow> 'a parsed) \<Rightarrow> path \<Rightarrow> 'r \<Rightarrow> 'a parsed" where
  "superRefine f inner p raw =
     (case inner p raw of
        (is, ABORTED) \<Rightarrow> (is, ABORTED)
      | (is, DIRTY v) \<Rightarrow> (is @ map (\<lambda>i. i\<lparr>path := p @ path i\<rparr>) (f v), DIRTY v)
      | (is, VALID v) \<Rightarrow>
          (is @ map (\<lambda>i. i\<lparr>path := p @ path i\<rparr>) (f v), if f v = [] then VALID v else DIRTY v))"

subsection \<open>Arrays\<close>

text \<open>
  \<open>ZodArray._parse\<close> with \<open>.min(n, message)\<close>: \<open>undefined\<close> aborts with \<open>invalid_type\<close>;
  a shorter array adds \<open>too_small\<close> at the array's path and goes on; every element is
  parsed at the array's path followed by its index, and the results are merged.
\<close>

definition z_array ::
  "nat \<Rightarrow> message \<Rightarrow> (path \<Rightarrow> 'r \<Rightarrow> 'a parsed) \<Rightarrow> path \<Rightarrow> 'r list option \<Rightarrow> 'a list parsed"
  where
  "z_array n m element p raw =
     (case raw of
        None \<Rightarrow> ([mk_issue invalid_type p DefaultMsg], ABORTED)
      | Some xs \<Rightarrow>
          (let results = map (\<lambda>(i, x). element (p @ [Idx i]) x) (enumerate 0 xs)
           in ((if length xs < n then [mk_issue too_small p m] else []) @ concat (map fst results),
               mergeArray (length xs < n) (map snd results))))"

section \<open>The schemas of \<open>src/lib/schema.ts\<close>\<close>

subsection \<open>Enums\<close>

definition phoneTypeEnum :: "path \<Rightarrow> jsstring option \<Rightarrow> jsstring parsed" where
  "phoneTypeEnum =
     z_enum [js ''Home'', js ''Mobile'', js ''Work'', js ''Other''] (Msg ''Phone type is required'')"

definition addressTypeEnum :: "path \<Rightarrow> jsstring option \<Rightarrow> jsstring parsed" where
  "addressTypeEnum =
     z_enum [js ''Home'', js ''Work'', js ''Other''] (Msg ''Address type is required'')"

definition hmoEnum :: "path \<Rightarrow> jsstring option \<Rightarrow> jsstring parsed" where
  "hmoEnum =
     z_enum [js ''Clalit'', js ''Maccabi'', js ''Mehuedet'', js ''Leumit''] (Msg ''HMO is required'')"

subsection \<open>\<open>phoneNumberSchema\<close>\<close>

text \<open>
  The raw entry as the form holds it, and the entry the schema produces
  (\<open>PhoneNumberData\<close>). Field names of raw records carry the prefix \<open>raw_\<close>.
\<close>

record raw_phone =
  raw_type :: "jsstring option"
  raw_number :: "jsstring option"
  raw_isMain :: "raw_boolean option"

record phone =
  type :: jsstring
  number :: jsstring
  isMain :: bool

definition phoneNumberSchema :: "path \<Rightarrow> raw_phone \<Rightarrow> phone parsed" where
  "phoneNumberSchema p raw =
     object (\<lambda>(t, n, m). \<lparr>type = t, number = n, isMain = m\<rparr>)
       (field (phoneTypeEnum (p @ [Key ''type'']) (raw_type raw))
       (field (refine (\<lambda>s. isValidIsraeliPhoneNumber (Some s))
                 (Msg ''Invalid Israeli phone number format'')
                 (z_string [Min 1 (Msg ''Phone number is required'')])
                 (p @ [Key ''number'']) (raw_number raw))
              (z_default (RawBoolean False) z_boolean (p @ [Key ''isMain''])
                 (raw_isMain raw))))"

subsection \<open>\<open>addressSchema\<close>\<close>

record raw_address =
  raw_cityCode :: "jsstring option"
  raw_cityName :: "jsstring option"
  raw_streetCode :: "jsstring option"
  raw_streetName :: "jsstring option"
  raw_streetNumber :: raw_number
  raw_addressType :: "jsstring option"
  raw_comments :: "jsstring option"

record address =
  cityCode :: jsstring
  cityName :: jsstring
  streetCode :: jsstring
  streetName :: jsstring
  streetNumber :: jsnum
  addressType :: jsstring
  comments :: "jsstring option"

definition addressSchema :: "(jsstring \<Rightarrow> jsnum) \<Rightarrow> path \<Rightarrow> raw_address \<Rightarrow> address parsed" where
  "addressSchema string_to_number p raw =
     object (\<lambda>(cc, cn, sc, sn, nr, ty, co).
               \<lparr>cityCode = cc, cityName = cn, streetCode = sc, streetName = sn,
                streetNumber = nr, addressType = ty, comments = co\<rparr>)
       (field (z_string [Min 1 (Msg ''City selection is required'')]
                 (p @ [Key ''cityCode'']) (raw_cityCode raw))
       (field (z_string [Min 1 (Msg ''City name is required'')]
                 (p @ [Key ''cityName'']) (raw_cityName raw))
       (field (z_string [Min 1 (Msg ''Street selection is required'')]
                 (p @ [Key ''streetCode'']) (raw_streetCode raw))
       (field (z_string [Min 1 (Msg ''Street name is required'')]
                 (p @ [Key ''streetName'']) (raw_streetName raw))
       (field (z_coerce_number string_to_number (Msg ''Street number must be a number'')
                 [IntCheck (Msg ''Street number must be a whole number''),
                  MinCheck 0 False (Msg ''Street number must be positive''),
                  MinCheck 1 True (Msg ''Street number is required'')]
                 (p @ [Key ''streetNumber'']) (raw_streetNumber raw))
       (field (addressTypeEnum (p @ [Key ''addressType'']) (raw_addressType raw))
              (z_optional (z_string [Max 500 (Msg ''Comments too long'')])
                 (p @ [Key ''comments'']) (raw_comments raw))))))))"

subsection \<open>The main-phone rule\<close>

text \<open>
  \<^verbatim>\<open>
  .superRefine((phones, ctx) => {
      const mainPhones = phones.filter((p) => p.isMain);
      if (mainPhones.length === 0) {
          ctx.addIssue({ code: z.ZodIssueCode.custom,
              message: `One phone number must be marked as main.`, path: [] });
      } else if (mainPhones.length > 1) {
          phones.forEach((phone, index) => {
              if (phone.isMain) {
                  ctx.addIssue({ path: [index, "isMain"], code: z.ZodIssueCode.custom,
                      message: `Only one phone can be main.` });
              }
          });
      }
  })
  \<close>
  The callback's result is the list of the issues it adds, in order, with the paths it
  gives them (relative to the array).
\<close>

fun forEach_main :: "nat \<Rightarrow> phone list \<Rightarrow> issue list" where
  "forEach_main index [] = []"
| "forEach_main index (phone # phones) =
     (if isMain phone
      then mk_issue custom [Idx index, Key ''isMain''] (Msg ''Only one phone can be main.'')
             # forEach_main (Suc index) phones
      else forEach_main (Suc index) phones)"

definition mainPhoneRule :: "phone list \<Rightarrow> issue list" where
  "mainPhoneRule phones =
     (let mainPhones = filter isMain phones
      in if length mainPhones = 0
         then [mk_issue custom [] (Msg ''One phone number must be marked as main.'')]
         else if length mainPhones > 1 then forEach_main 0 phones
         else [])"

subsection \<open>\<open>patientSchema\<close>\<close>

record raw_patient =
  raw_id :: "jsstring option"
  raw_firstName :: "jsstring option"
  raw_lastName :: "jsstring option"
  raw_phoneNumbers :: "raw_phone list option"
  raw_hmo :: "jsstring option"
  raw_addresses :: "raw_address list option"

record patient =
  id' :: jsstring
  firstName :: jsstring
  lastName :: jsstring
  phoneNumbers :: "phone list"
  hmo :: jsstring
  addresses :: "address list"

definition patientSchema :: "(jsstring \<Rightarrow> jsnum) \<Rightarrow> path \<Rightarrow> raw_patient \<Rightarrow> patient parsed" where
  "patientSchema string_to_number p raw =
     object (\<lambda>(ir, fr, lr, pr, hr, ar).
               \<lparr>id' = ir, firstName = fr, lastName = lr, phoneNumbers = pr, hmo = hr,
                addresses = ar\<rparr>)
       (field (refine (\<lambda>s. isValidIsraeliId (Some s)) (Msg ''Invalid Israeli ID number'')
                 (z_string [Length 9 (Msg ''ID must be exactly 9 digits'')])
                 (p @ [Key ''id'']) (raw_id raw))
       (field (z_string [Trim, Min 1 (Msg ''First name is required'')]
                 (p @ [Key ''firstName'']) (raw_firstName raw))
       (field (z_string [Trim, Min 1 (Msg ''Last name is required'')]
                 (p @ [Key ''lastName'']) (raw_lastName raw))
       (field (superRefine mainPhoneRule
                 (z_array 1 (Msg ''At least one phone number is required'') phoneNumberSchema)
                 (p @ [Key ''phoneNumbers'']) (raw_phoneNumbers raw))
       (field (hmoEnum (p @ [Key ''hmo'']) (raw_hmo raw))
              (z_array 1 (Msg ''At least one address is required'')
                 (addressSchema string_to_number)
                 (p @ [Key ''addresses'']) (raw_addresses raw)))))))"

text \<open>
  Validation as the form runs it (\<open>zodResolver(patientSchema)\<close>): the schema is parsed at
  the empty path, a valid status gives the normalized record, and any other status gives
  the collected issues as data. The library throws (\<open>Validation failed but no issues
  detected\<close>) when the status is not valid and no issue was recorded.
\<close>

datatype validation = Success patient | Failure "issue list" | Throws

definition validate :: "(jsstring \<Rightarrow> jsnum) \<Rightarrow> raw_patient \<Rightarrow> validation" where
  "validate string_to_number raw =
     (case patientSchema string_to_number [] raw of
        (is, VALID v) \<Rightarrow> Success v
      | (is, _) \<Rightarrow> if is = [] then Throws else Failure is)"

section \<open>Notions used to state the properties of the schema\<close>

text \<open>
  A parse result is consistent when it is valid exactly when no issue was recorded;
  the library relies on this when it turns a result that is not valid into an error.
\<close>

fun is_valid :: "'a parse_status \<Rightarrow> bool" where
  "is_valid (VALID v) = True"
| "is_valid (DIRTY v) = False"
| "is_valid ABORTED = False"

definition consistent :: "'a parsed \<Rightarrow> bool" where
  "consistent r = ((fst r = []) = is_valid (snd r))"

section \<open>The normalized record read back as raw input\<close>

text \<open>
  The record validation produces is itself a value the schema can be applied to: every
  field is present, the street number is a number, and \<open>isMain\<close> is a boolean.
\<close>

definition raw_of_phone :: "phone \<Rightarrow> raw_phone" where
  "raw_of_phone v =
     \<lparr>raw_type = Some (type v), raw_number = Some (number v),
      raw_isMain = Some (RawBoolean (isMain v))\<rparr>"

definition raw_of_address :: "address \<Rightarrow> raw_address" where
  "raw_of_address v =
     \<lparr>raw_cityCode = Some (cityCode v), raw_cityName = Some (cityName v),
      raw_streetCode = Some (streetCode v), raw_streetName = Some (streetName v),
      raw_streetNumber = RawNumber (streetNumber v), raw_addressType = Some (addressType v),
      raw_comments = comments v\<rparr>"

definition raw_of_patient :: "patient \<Rightarrow> raw_patient" where
  "raw_of_patient v =
     \<lparr>raw_id = Some (id' v), raw_firstName = Some (firstName v),
      raw_lastName = Some (lastName v),
      raw_phoneNumbers = Some (map raw_of_phone (phoneNumbers v)),
      raw_hmo = Some (hmo v),
      raw_addresses = Some (map raw_of_address (addresses v))\<rparr>"

section \<open>Sample records\<close>

text \<open>
  A string-to-number conversion that knows one decimal literal, a raw record as a user
  may have typed it, and the normalized record validation gives for it.
\<close>

definition sample_string_to_number :: "jsstring \<Rightarrow> jsnum" where
  "sample_string_to_number s = (if s = js ''12'' then Finite 12 else NaN)"

definition sample_raw_patient :: raw_patient where
  "sample_raw_patient =
     \<lparr>raw_id = Some (js ''000000018''), raw_firstName = Some (js '' Dana ''),
      raw_lastName = Some (js ''Levi''),
      raw_phoneNumbers = Some
        [\<lparr>raw_type = Some (js ''Mobile''), raw_number = Some (js ''050-123-4567''),
          raw_isMain = Some (RawBoolean True)\<rparr>,
         \<lparr>raw_type = Some (js ''Home''), raw_number = Some (js ''02-1234567''),
          raw_isMain = None\<rparr>],
      raw_hmo = Some (js ''Clalit''),
      raw_addresses = Some
        [\<lparr>raw_cityCode = Some (js ''3000''), raw_cityName = Some (js ''Jerusalem''),
          raw_streetCode = Some (js ''101''), raw_streetName = Some (js ''Herzl''),
          raw_streetNumber = RawString (js ''12''), raw_addressType = Some (js ''Home''),
          raw_comments = None\<rparr>]\<rparr>"

definition sample_patient :: patient where
  "sample_patient =
     \<lparr>id' = js ''000000018'', firstName = js ''Dana'', lastName = js ''Levi'',
      phoneNumbers =
        [\<lparr>type = js ''Mobile'', number = js ''050-123-4567'', isMain = True\<rparr>,
         \<lparr>type = js ''Home'', number = js ''02-1234567'', isMain = False\<rparr>],
      hmo = js ''Clalit'',
      addresses =
        [\<lparr>cityCode = js ''3000'', cityName = js ''Jerusalem'', streetCode = js ''101'',
          streetName = js ''Herzl'', streetNumber = Finite 12, addressType = js ''Home'',
          comments = None\<rparr>]\<rparr>"

section \<open>The invalid fields of a raw record, as the specification's data model words them\<close>

text \<open>
  The data model: \<open>id\<close> is a string of exactly 9 ASCII digits that passes the checksum;
  \<open>firstName\<close> and \<open>lastName\<close> are non-empty once trimmed; \<open>hmo\<close>, a phone's \<open>type\<close> and
  an address's \<open>addressType\<close> are one of their fixed codes; a phone's \<open>number\<close> satisfies
  the phone-format predicate and its \<open>isMain\<close> is a boolean or absent; \<open>cityCode\<close>, \<open>cityName\<close>, \<open>streetCode\<close> and \<open>streetName\<close> are
  non-empty strings; \<open>streetNumber\<close> is, once coerced, a positive integer; \<open>comments\<close> is
  absent or at most 500 characters long; \<open>phoneNumbers\<close> and \<open>addresses\<close> have at least
  one entry. \<open>spec_invalid_paths\<close> lists the structural paths of the fields of a raw
  record that break these constraints.
\<close>

definition flag :: "bool \<Rightarrow> path \<Rightarrow> path list" where
  "flag ok p = (if ok then [] else [p])"

definition spec_in_enum :: "string list \<Rightarrow> jsstring option \<Rightarrow> bool" where
  "spec_in_enum names raw = (case raw of None \<Rightarrow> False | Some s \<Rightarrow> s \<in> set (map js names))"

definition spec_nonempty :: "jsstring option \<Rightarrow> bool" where
  "spec_nonempty raw = (case raw of None \<Rightarrow> False | Some s \<Rightarrow> s \<noteq> [])"

definition spec_nonempty_trimmed :: "jsstring option \<Rightarrow> bool" where
  "spec_nonempty_trimmed raw = (case raw of None \<Rightarrow> False | Some s \<Rightarrow> js_trim s \<noteq> [])"

definition spec_id_field :: "jsstring option \<Rightarrow> bool" where
  "spec_id_field raw = (case raw of None \<Rightarrow> False | Some s \<Rightarrow> spec_israeli_id s)"

definition spec_phone_field :: "jsstring option \<Rightarrow> bool" where
  "spec_phone_field raw =
     (case raw of None \<Rightarrow> False | Some s \<Rightarrow> spec_domestic_phone (filter is_digit s))"

definition spec_positive_integer :: "jsnum \<Rightarrow> bool" where
  "spec_positive_integer n =
     (case n of Finite q \<Rightarrow> rat_of_int \<lfloor>q\<rfloor> = q \<and> 0 < q | _ \<Rightarrow> False)"

definition spec_comments :: "jsstring option \<Rightarrow> bool" where
  "spec_comments raw = (case raw of None \<Rightarrow> True | Some s \<Rightarrow> length s \<le> 500)"

definition spec_boolean_or_absent :: "raw_boolean option \<Rightarrow> bool" where
  "spec_boolean_or_absent raw = (raw \<noteq> Some RawNotBoolean)"

definition spec_phone_invalid_paths :: "path \<Rightarrow> raw_phone \<Rightarrow> path list" where
  "spec_phone_invalid_paths p r =
     flag (spec_in_enum [''Home'', ''Mobile'', ''Work'', ''Other''] (raw_type r)) (p @ [Key ''type''])
     @ flag (spec_phone_field (raw_number r)) (p @ [Key ''number''])
     @ flag (spec_boolean_or_absent (raw_isMain r)) (p @ [Key ''isMain''])"

definition spec_address_invalid_paths ::
  "(jsstring \<Rightarrow> jsnum) \<Rightarrow> path \<Rightarrow> raw_address \<Rightarrow> path list" where
  "spec_address_invalid_paths string_to_number p r =
     flag (spec_nonempty (raw_cityCode r)) (p @ [Key ''cityCode''])
     @ flag (spec_nonempty (raw_cityName r)) (p @ [Key ''cityName''])
     @ flag (spec_nonempty (raw_streetCode r)) (p @ [Key ''streetCode''])
     @ flag (spec_nonempty (raw_streetName r)) (p @ [Key ''streetName''])
     @ flag (spec_positive_integer (js_Number string_to_number (raw_streetNumber r)))
         (p @ [Key ''streetNumber''])
     @ flag (spec_in_enum [''Home'', ''Work'', ''Other''] (raw_addressType r))
         (p @ [Key ''addressType''])
     @ flag (spec_comments (raw_comments r)) (p @ [Key ''comments''])"

definition spec_entries_invalid_paths ::
  "(path \<Rightarrow> 'r \<Rightarrow> path list) \<Rightarrow> path \<Rightarrow> 'r list option \<Rightarrow> path list" where
  "spec_entries_invalid_paths each p raw =
     (case raw of
        None \<Rightarrow> [p]
      | Some xs \<Rightarrow>
          flag (1 \<le> length xs) p
          @ concat (map (\<lambda>(i, x). each (p @ [Idx i]) x) (enumerate 0 xs)))"

definition spec_invalid_paths :: "(jsstring \<Rightarrow> jsnum) \<Rightarrow> raw_patient \<Rightarrow> path list" where
  "spec_invalid_paths string_to_number r =
     flag (spec_id_field (raw_id r)) [Key ''id'']
     @ flag (spec_nonempty_trimmed (raw_firstName r)) [Key ''firstName'']
     @ flag (spec_nonempty_trimmed (raw_lastName r)) [Key ''lastName'']
     @ spec_entries_invalid_paths spec_phone_invalid_paths [Key ''phoneNumbers'']
         (raw_phoneNumbers r)
     @ flag (spec_in_enum [''Clalit'', ''Maccabi'', ''Mehuedet'', ''Leumit''] (raw_hmo r))
         [Key ''hmo'']
     @ spec_entries_invalid_paths (spec_address_invalid_paths string_to_number)
         [Key ''addresses''] (raw_addresses r)"

section \<open>The main-phone invariant on raw entries\<close>

text \<open>
  The collection-level invariant of the data model: exactly one entry has
  \<open>isMain = true\<close>, an absent \<open>isMain\<close> counting as false. With no such entry the
  array root is in error, with more than one each such entry is.

  \<open>spec_phone_entry_parses\<close> holds for an entry that the schema does not reject outright:
  its type is one of the enumeration, its number is a string, and its \<open>isMain\<close> is a
  boolean or absent. \<open>spec_phone_entries_parse\<close> holds when \<open>phoneNumbers\<close> is an array
  and every entry of it is such an entry. \<open>main_phone_messages\<close> are the two messages of
  the main-phone rule; no other check of the schema uses them.
\<close>

definition raw_main :: "raw_phone \<Rightarrow> bool" where
  "raw_main r = (case raw_isMain r of Some (RawBoolean b) \<Rightarrow> b | _ \<Rightarrow> False)"

definition spec_main_phone_paths :: "raw_phone list option \<Rightarrow> path list" where
  "spec_main_phone_paths raw =
     (case raw of
        None \<Rightarrow> []
      | Some xs \<Rightarrow>
          if length (filter raw_main xs) = 0 then [ [Key ''phoneNumbers''] ]
          else if length (filter raw_main xs) > 1
          then map (\<lambda>i. [Key ''phoneNumbers'', Idx i, Key ''isMain''])
                 (filter (\<lambda>i. raw_main (xs ! i)) [0..<length xs])
          else [])"

definition spec_phone_entry_parses :: "raw_phone \<Rightarrow> bool" where
  "spec_phone_entry_parses r =
     (spec_in_enum [''Home'', ''Mobile'', ''Work'', ''Other''] (raw_type r)
      \<and> raw_number r \<noteq> None
      \<and> spec_boolean_or_absent (raw_isMain r))"

definition spec_phone_entries_parse :: "raw_phone list option \<Rightarrow> bool" where
  "spec_phone_entries_parse raw =
     (case raw of None \<Rightarrow> False | Some xs \<Rightarrow> list_all spec_phone_entry_parses xs)"

definition main_phone_messages :: "message list" where
  "main_phone_messages =
     [Msg ''One phone number must be marked as main.'', Msg ''Only one phone can be main.'']"

definition rule_free :: "issue list \<Rightarrow> bool" where
  "rule_free is = list_all (\<lambda>i. message i \<notin> set main_phone_messages) is"

text \<open>The value a parse result carries, if it was not aborted.\<close>

fun status_value :: "'a parse_status \<Rightarrow> 'a option" where
  "status_value (VALID v) = Some v"
| "status_value (DIRTY v) = Some v"
| "status_value ABORTED = None"

text \<open>
  The sample record with a single phone entry whose type is not one of the enumeration
  and which is not marked main.
\<close>

definition sample_raw_fax :: raw_patient where
  "sample_raw_fax =
     sample_raw_patient
       \<lparr>raw_phoneNumbers := Some
          [\<lparr>raw_type = Some (js ''Fax''), raw_number = Some (js ''050-123-4567''),
            raw_isMain = Some (RawBoolean False)\<rparr>]\<rparr>"

text \<open>
  The sample record with a single phone entry that is valid except for its \<open>isMain\<close>,
  which is \<open>null\<close>.
\<close>

definition sample_raw_null_main :: raw_patient where
  "sample_raw_null_main =
     sample_raw_patient
       \<lparr>raw_phoneNumbers := Some
          [\<lparr>raw_type = Some (js ''Home''), raw_number = Some (js ''02-1234567''),
            raw_isMain = Some RawNotBoolean\<rparr>]\<rparr>"

text \<open>
  A record with four fields invalid at once (the identifier, the first name, the phone
  number and the street number) and no phone marked main.
\<close>

definition sample_raw_invalid :: raw_patient where
  "sample_raw_invalid =
     \<lparr>raw_id = Some (js ''123456789''), raw_firstName = Some (js ''  ''),
      raw_lastName = Some (js ''Levi''),
      raw_phoneNumbers = Some
        [\<lparr>raw_type = Some (js ''Home''), raw_number = Some (js ''1234567''),
          raw_isMain = None\<rparr>],
      raw_hmo = Some (js ''Clalit''),
      raw_addresses = Some
        [\<lparr>raw_cityCode = Some (js ''3000''), raw_cityName = Some (js ''Jerusalem''),
          raw_streetCode = Some (js ''101''), raw_streetName = Some (js ''Herzl''),
          raw_streetNumber = RawString (js ''twelve''), raw_addressType = Some (js ''Home''),
          raw_comments = None\<rparr>]\<rparr>"

definition sample_issues :: "issue list" where
  "sample_issues =
     [mk_issue custom [Key ''id''] (Msg ''Invalid Israeli ID number''),
      mk_issue too_small [Key ''firstName''] (Msg ''First name is required''),
      mk_issue custom [Key ''phoneNumbers'', Idx 0, Key ''number'']
        (Msg ''Invalid Israeli phone number format''),
      mk_issue custom [Key ''phoneNumbers''] (Msg ''One phone number must be marked as main.''),
      mk_issue invalid_type [Key ''addresses'', Idx 0, Key ''streetNumber'']
        (Msg ''Street number must be a number'')]"

section \<open>The lookup client of \<open>src/lib/api.ts\<close>\<close>

text \<open>
  \<open>fetchCities\<close> and \<open>fetchStreets\<close> talk to the network through \<open>apiClient.get\<close>. The
  network is a parameter: it answers a request with a response, with a cancellation (the
  case \<open>axios.isCancel\<close> recognises) or with another failure. Each function returns its
  result, a list of records or the error it throws, together with the requests it
  issued, in order. The URLs and resource identifiers come from the environment.
\<close>

record ApiCity =
  city_id :: jsnum
  city_semel_yishuv :: jsstring
  city_shem_yishuv :: jsstring

record ApiStreet =
  street_id :: jsnum
  street_semel_rechov :: jsstring
  street_shem_rechov :: jsstring
  street_semel_yishuv :: jsstring

record env =
  CITIES_API_URL :: string
  CITIES_RESOURCE_ID :: string
  STREETS_API_URL :: string
  STREETS_RESOURCE_ID :: string

text \<open>
  A request: the URL, the \<open>params\<close> object (\<open>filters\<close> is the JSON text
  \<open>{"semel_yishuv": cityCode}\<close>, represented by the city code it carries) and the
  \<open>AbortSignal\<close> passed on, if any.
\<close>

record 's request =
  url :: string
  resource_id :: string
  q :: jsstring
  filters :: "jsstring option"
  limit :: nat
  signal :: "'s option"

text \<open>
  What the awaited \<open>apiClient.get\<close> gives: a response with \<open>data.success\<close> and
  \<open>data.result.records\<close> (\<open>None\<close> when absent), a cancellation, or a rejection with some
  error.
\<close>

datatype ('r, 'e) outcome = Response bool "'r list option" | Cancelled | Rejected 'e

datatype 'e fetch_error = CityCodeRequired | ApiFailure | RequestFailure 'e

text \<open>
  \<open>Array.from(new Map(records.map((r) => [key(r), r])).values())\<close>: \<open>Map.set\<close> replaces
  the value of a key already present, in place, and puts a new key at the end.
\<close>

fun map_set :: "('k \<times> 'v) list \<Rightarrow> 'k \<Rightarrow> 'v \<Rightarrow> ('k \<times> 'v) list" where
  "map_set [] k v = [(k, v)]"
| "map_set ((k', v') # m) k v = (if k' = k then (k, v) # m else (k', v') # map_set m k v)"

definition unique_by :: "('v \<Rightarrow> 'k) \<Rightarrow> 'v list \<Rightarrow> 'v list" where
  "unique_by key records = map snd (foldl (\<lambda>m r. map_set m (key r) r) [] records)"

text \<open>
  \<^verbatim>\<open>
  export const fetchCities = async (query, signal) => {
      const trimmedQuery = query.trim();
      if (!trimmedQuery || trimmedQuery.length < 2) { return []; }
      try {
          const response = await apiClient.get(CITIES_API_URL,
              { params: { resource_id: CITIES_RESOURCE_ID, q: trimmedQuery, limit: 20 }, signal });
          if (response.data.success && response.data.result.records) {
              return Array.from(new Map(response.data.result.records.map(
                  (city) => [city["semel_yishuv"], city])).values());
          } else { throw new Error(...); }
      } catch (error) {
          if (axios.isCancel(error)) { return []; }
          throw error instanceof Error ? error : new Error("Failed to fetch cities");
      }
  };
  \<close>
\<close>

definition fetchCities ::
  "env \<Rightarrow> ('s request \<Rightarrow> (ApiCity, 'e) outcome) \<Rightarrow> jsstring \<Rightarrow> 's option
   \<Rightarrow> ('e fetch_error + ApiCity list) \<times> 's request list" where
  "fetchCities e net query sig =
     (let trimmedQuery = js_trim query
      in if trimmedQuery = [] \<or> length trimmedQuery < 2 then (Inr [], [])
         else
           (let req = \<lparr>url = CITIES_API_URL e, resource_id = CITIES_RESOURCE_ID e,
                       q = trimmedQuery, filters = None, limit = 20, signal = sig\<rparr>
            in (case net req of
                  Response success (Some records) \<Rightarrow>
                    if success then Inr (unique_by city_semel_yishuv records) else Inl ApiFailure
                | Response success None \<Rightarrow> Inl ApiFailure
                | Cancelled \<Rightarrow> Inr []
                | Rejected err \<Rightarrow> Inl (RequestFailure err),
                [req])))"

text \<open>
  \<open>fetchStreets\<close> has the same guard on the query, then throws when \<open>cityCode\<close> is empty or
  absent (\<open>!cityCode\<close>), and otherwise asks for the streets of that city.
\<close>

definition fetchStreets ::
  "env \<Rightarrow> ('s request \<Rightarrow> (ApiStreet, 'e) outcome) \<Rightarrow> jsstring \<Rightarrow> jsstring option \<Rightarrow> 's option
   \<Rightarrow> ('e fetch_error + ApiStreet list) \<times> 's request list" where
  "fetchStreets e net query cityCode' sig =
     (let trimmedQuery = js_trim query
      in if trimmedQuery = [] \<or> length trimmedQuery < 2 then (Inr [], [])
         else if cityCode' = None \<or> cityCode' = Some [] then (Inl CityCodeRequired, [])
         else
           (let req = \<lparr>url = STREETS_API_URL e, resource_id = STREETS_RESOURCE_ID e,
                       q = trimmedQuery, filters = cityCode', limit = 20, signal = sig\<rparr>
            in (case net req of
                  Response success (Some records) \<Rightarrow>
                    if success then Inr (unique_by street_semel_rechov records) else Inl ApiFailure
                | Response success None \<Rightarrow> Inl ApiFailure
                | Cancelled \<Rightarrow> Inr []
                | Rejected err \<Rightarrow> Inl (RequestFailure err),
                [req])))"

text \<open>An environment, a city and a network that always answers with that city.\<close>

definition sample_env :: env where
  "sample_env =
     \<lparr>CITIES_API_URL = ''https://data.gov.il/api/3/action/datastore_search'',
      CITIES_RESOURCE_ID = ''5c78e9fa-c2e2-4771-93ff-7f400a12f7ba'',
      STREETS_API_URL = ''https://data.gov.il/api/3/action/datastore_search'',
      STREETS_RESOURCE_ID = ''9ad3862c-8391-4b2f-84a4-2d4c68625f4b''\<rparr>"

definition sample_city :: ApiCity where
  "sample_city =
     \<lparr>city_id = Finite 1, city_semel_yishuv = js ''3000'', city_shem_yishuv = js ''Jerusalem''\<rparr>"

definition sample_net :: "unit request \<Rightarrow> (ApiCity, unit) outcome" where
  "sample_net req = Response True (Some [sample_city, sample_city])"

definition sample_street_net :: "unit request \<Rightarrow> (ApiStreet, unit) outcome" where
  "sample_street_net req = Response True (Some [])"

section \<open>Properties of the validators\<close>

subsection \<open>The identifier validator\<close>

lemma repeat_re_numeral: "repeat_re (numeral k) r = Seq r (repeat_re (pred_numeral k) r)"
  by (simp add: numeral_eq_Suc)

lemma js_Nil: "js [] = []"
  by (simp add: js_def)

lemma js_Cons: "js (c # s) = of_char c # js s"
  by (simp add: js_def)

lemma rmatch_Seq_Digit_Cons:
  "rmatch (Seq Digit r) (c # t) = (if is_digit c then rmatch r t else [])"
  by simp

lemma rmatch_repeat_Digit:
  "rmatch (repeat_re n Digit) s =
     (if n \<le> length s \<and> list_all is_digit (take n s) then [drop n s] else [])"
proof (induction n arbitrary: s)
  case 0
  show ?case by simp
next
  case (Suc n)
  show ?case
  proof (cases s)
    case Nil
    then show ?thesis by simp
  next
    case (Cons c t)
    have "rmatch (repeat_re (Suc n) Digit) (c # t) =
            (if is_digit c then rmatch (repeat_re n Digit) t else [])"
      by (simp only: repeat_re.simps rmatch_Seq_Digit_Cons)
    then show ?thesis
      unfolding Cons Suc.IH [of t] by (cases "is_digit c") simp_all
  qed
qed

lemma regex_test_repeat_Digit:
  "regex_test (repeat_re n Digit) s = (length s = n \<and> list_all is_digit s)"
  by (auto simp: regex_test_def rmatch_repeat_Digit)

lemma id_loop_step:
  assumes "i < 9"
  shows "id_loop s i sm = id_loop s (Suc i) (sm + spec_adjusted i (s ! i))"
proof -
  define d where "d = digit_value (s ! i)"
  have val: "(if d * (i mod 2 + 1) > 9 then d * (i mod 2 + 1) - 9 else d * (i mod 2 + 1))
               = spec_adjusted i (s ! i)"
    by (cases "even i") (simp_all add: spec_adjusted_def Let_def mod_2_eq_odd d_def mult_2_right)
  have "id_loop s i sm =
          id_loop s (i + 1)
            (sm + (if d * (i mod 2 + 1) > 9 then d * (i mod 2 + 1) - 9 else d * (i mod 2 + 1)))"
    using assms by (subst id_loop.simps) (simp add: Let_def d_def)
  then show ?thesis
    unfolding val by simp
qed

lemma id_loop_done: "\<not> i < 9 \<Longrightarrow> id_loop s i sm = sm"
  by (subst id_loop.simps) simp

lemma id_loop_sum:
  "id_loop s i sm = sm + (\<Sum>k = i..<9. spec_adjusted k (s ! k))"
proof (induction "9 - i" arbitrary: i sm)
  case 0
  then show ?case by (simp add: id_loop_done)
next
  case (Suc n)
  then have lt: "i < 9" and n: "n = 9 - Suc i" by arith+
  have "id_loop s i sm = id_loop s (Suc i) (sm + spec_adjusted i (s ! i))"
    by (rule id_loop_step [OF lt])
  also have "\<dots> = sm + spec_adjusted i (s ! i) + (\<Sum>k = Suc i..<9. spec_adjusted k (s ! k))"
    by (rule Suc.hyps(1) [OF n])
  also have "\<dots> = sm + (\<Sum>k = i..<9. spec_adjusted k (s ! k))"
    using lt by (simp add: sum.atLeast_Suc_lessThan)
  finally show ?case .
qed

lemma isValidIsraeliId_Some:
  "isValidIsraeliId (Some s) = spec_israeli_id s"
  by (auto simp: isValidIsraeliId_def spec_israeli_id_def regex_test_repeat_Digit
        id_loop_sum spec_checksum_def)


lemma id_000000018: "isValidIsraeliId (Some (js ''000000018''))"
  by (simp add: isValidIsraeliId_Some spec_israeli_id_def spec_checksum_def spec_adjusted_def
      js_Nil js_Cons is_digit_def digit_value_def sum.atLeast_Suc_lessThan)
lemma id_123456789: "\<not> isValidIsraeliId (Some (js ''123456789''))"
  by (simp add: isValidIsraeliId_Some spec_israeli_id_def spec_checksum_def spec_adjusted_def
      js_Nil js_Cons is_digit_def digit_value_def sum.atLeast_Suc_lessThan)

subsection \<open>The phone validator\<close>

lemma js_23489: "set (js ''23489'') = {50, 51, 52, 56, 57}"
  by (auto simp: js_Nil js_Cons)

lemma regex_test_lead:
  "regex_test (Seq (Seq (Chr a) p) r) (z # t) =
     (z = a \<and> (\<exists>ds \<in> set (rmatch p t). regex_test r ds))"
  by (auto simp: regex_test_def)

lemma rmatch_prefix_alt:
  "set (rmatch (Alt (Chr 50) (Alt (Chr 51) (Alt (Chr 52)
              (Alt (Seq (Chr 53) (CharRange 48 57))
                (Alt (Seq (Chr 55) (CharRange 49 57))
                  (Alt (Chr 56) (Chr 57))))))) t) = set_option (spec_phone_prefix t)"
proof (cases t)
  case Nil
  then show ?thesis by (simp add: spec_phone_prefix_def)
next
  case (Cons c u)
  show ?thesis
  proof (cases u)
    case Nil
    then show ?thesis using Cons by (auto simp: spec_phone_prefix_def js_23489)
  next
    case (Cons d v)
    then show ?thesis using \<open>t = c # u\<close>
      by (auto simp: spec_phone_prefix_def js_23489 is_digit_def)
  qed
qed

lemma israelPhoneRegex_spec:
  "regex_test israelPhoneRegex s = spec_domestic_phone s"
proof (cases s)
  case Nil
  then show ?thesis
    by (simp add: israelPhoneRegex_def regex_test_def spec_domestic_phone_def)
next
  case (Cons z t)
  have "regex_test israelPhoneRegex (z # t) =
          (z = 48 \<and> (\<exists>ds \<in> set_option (spec_phone_prefix t). regex_test (repeat_re 7 Digit) ds))"
    unfolding israelPhoneRegex_def by (simp only: regex_test_lead rmatch_prefix_alt)
  then show ?thesis
    unfolding Cons by (auto simp: spec_domestic_phone_def regex_test_repeat_Digit split: option.splits)
qed

lemma isValidIsraeliPhoneNumber_Some:
  "isValidIsraeliPhoneNumber (Some s) = spec_domestic_phone (cleaned s)"
  by (cases "s = []")
     (simp_all add: isValidIsraeliPhoneNumber_def israelPhoneRegex_spec cleaned_def
        spec_domestic_phone_def)

text \<open>
  Claim C2. \<open>isValidIsraeliPhoneNumber\<close> removes every non-digit character and accepts
  exactly when the cleaned string is a \<open>0\<close>, then one of the prefixes 2, 3, 4, 8, 9,
  5 followed by any digit, or 7 followed by a digit 1 to 9, then exactly seven more digits;
  \<open>null\<close> and the empty string are rejected. \<open>050-123-4567\<close> and \<open>02-1234567\<close> are
  accepted, \<open>1234567\<close> and the empty string are not.
\<close>

theorem C2_phone:
  "isValidIsraeliPhoneNumber (Some phone) = spec_domestic_phone (filter is_digit phone)
   \<and> \<not> isValidIsraeliPhoneNumber None
   \<and> \<not> isValidIsraeliPhoneNumber (Some [])
   \<and> isValidIsraeliPhoneNumber (Some (js ''050-123-4567''))
   \<and> isValidIsraeliPhoneNumber (Some (js ''02-1234567''))
   \<and> \<not> isValidIsraeliPhoneNumber (Some (js ''1234567''))"
proof -
  have gen: "isValidIsraeliPhoneNumber (Some phone) = spec_domestic_phone (filter is_digit phone)"
    using isValidIsraeliPhoneNumber_Some [of phone] by (simp add: cleaned_def)
  have null: "\<not> isValidIsraeliPhoneNumber None"
    by (simp add: isValidIsraeliPhoneNumber_def)
  have empty: "\<not> isValidIsraeliPhoneNumber (Some [])"
    by (simp add: isValidIsraeliPhoneNumber_def)
  have e1: "isValidIsraeliPhoneNumber (Some (js ''050-123-4567''))"
    by (simp add: isValidIsraeliPhoneNumber_Some cleaned_def spec_domestic_phone_def
          spec_phone_prefix_def js_Nil js_Cons is_digit_def)
  have e2: "isValidIsraeliPhoneNumber (Some (js ''02-1234567''))"
    by (simp add: isValidIsraeliPhoneNumber_Some cleaned_def spec_domestic_phone_def
          spec_phone_prefix_def js_Nil js_Cons is_digit_def)
  have e3: "\<not> isValidIsraeliPhoneNumber (Some (js ''1234567''))"
    by (simp add: isValidIsraeliPhoneNumber_Some cleaned_def spec_domestic_phone_def
          spec_phone_prefix_def js_Nil js_Cons is_digit_def)
  from gen null empty e1 e2 e3 show ?thesis by blast
qed

theorem C2_phone_witness:
  "isValidIsraeliPhoneNumber (Some (js ''050-123-4567'')) =
     spec_domestic_phone (filter is_digit (js ''050-123-4567''))
   \<and> filter is_digit (js ''050-123-4567'') = js ''0501234567''"
proof -
  have "filter is_digit (js ''050-123-4567'') = js ''0501234567''"
    by (simp add: js_Nil js_Cons is_digit_def)
  with C2_phone [of "js ''050-123-4567''"] show ?thesis by blast
qed

lemma spec_phone_prefix_length:
  assumes "spec_phone_prefix t = Some ds"
  shows "(hd t \<in> {50, 51, 52, 56, 57} \<and> length t = Suc (length ds))
       \<or> (hd t \<in> {53, 55} \<and> length t = Suc (Suc (length ds)))"
  using assms
  by (auto simp: spec_phone_prefix_def js_23489 split: list.splits if_splits)

text \<open>
  Claim C9. Every accepted input has a cleaned digit string of exactly 9 digits when its
  second digit is 2, 3, 4, 8 or 9, and of exactly 10 digits when its second digit is 5 or
  7; no other second digit and no other length is accepted.
\<close>

theorem C9_phone_lengths:
  assumes "isValidIsraeliPhoneNumber (Some phone)"
  shows "(cleaned phone ! 1 \<in> {50, 51, 52, 56, 57} \<and> length (cleaned phone) = 9)
       \<or> (cleaned phone ! 1 \<in> {53, 55} \<and> length (cleaned phone) = 10)"
proof -
  from assms have sp: "spec_domestic_phone (cleaned phone)"
    by (simp add: isValidIsraeliPhoneNumber_Some)
  then obtain z t where c: "cleaned phone = z # t"
    by (cases "cleaned phone") (auto simp: spec_domestic_phone_def)
  with sp obtain ds where p: "spec_phone_prefix t = Some ds" and l: "length ds = 7"
    by (auto simp: spec_domestic_phone_def split: option.splits)
  from p have "t \<noteq> []" by (auto simp: spec_phone_prefix_def)
  then have nth: "cleaned phone ! 1 = hd t" using c by (cases t) simp_all
  have len: "length (cleaned phone) = Suc (length t)" using c by simp
  from spec_phone_prefix_length [OF p] show ?thesis
    unfolding nth len l by simp
qed

theorem C9_phone_lengths_witness:
  "isValidIsraeliPhoneNumber (Some (js ''02-1234567''))
   \<and> cleaned (js ''02-1234567'') ! 1 = 50 \<and> length (cleaned (js ''02-1234567'')) = 9
   \<and> isValidIsraeliPhoneNumber (Some (js ''050-123-4567''))
   \<and> cleaned (js ''050-123-4567'') ! 1 = 53 \<and> length (cleaned (js ''050-123-4567'')) = 10"
proof -
  have a: "isValidIsraeliPhoneNumber (Some (js ''02-1234567''))"
    by (simp add: isValidIsraeliPhoneNumber_Some cleaned_def spec_domestic_phone_def
          spec_phone_prefix_def js_Nil js_Cons is_digit_def)
  have b: "isValidIsraeliPhoneNumber (Some (js ''050-123-4567''))"
    by (simp add: isValidIsraeliPhoneNumber_Some cleaned_def spec_domestic_phone_def
          spec_phone_prefix_def js_Nil js_Cons is_digit_def)
  have a1: "cleaned (js ''02-1234567'') ! 1 = 50"
    by (simp add: cleaned_def js_Nil js_Cons is_digit_def)
  have b1: "cleaned (js ''050-123-4567'') ! 1 = 53"
    by (simp add: cleaned_def js_Nil js_Cons is_digit_def)
  from C9_phone_lengths [OF a] C9_phone_lengths [OF b] a b a1 b1 show ?thesis
    by simp
qed

text \<open>
  Claim C1. \<open>isValidIsraeliId\<close> returns true exactly for the strings of nine ASCII
  digits whose weighted checksum (digit times 1 at even positions and times 2 at odd ones,
  9 subtracted from a product above 9, the nine values summed) is divisible by 10, and
  false for every other input, \<open>null\<close> included. \<open>000000018\<close> is valid and \<open>123456789\<close>
  is not.
\<close>

theorem C1_id:
  "isValidIsraeliId (Some s) =
     (length s = 9 \<and> list_all is_digit s \<and> spec_checksum s mod 10 = 0)
   \<and> \<not> isValidIsraeliId None
   \<and> isValidIsraeliId (Some (js ''000000018''))
   \<and> \<not> isValidIsraeliId (Some (js ''123456789''))"
  using isValidIsraeliId_Some [of s] id_000000018 id_123456789
  by (simp add: spec_israeli_id_def isValidIsraeliId_def)

theorem C1_id_witness:
  "isValidIsraeliId (Some (js ''000000018'')) =
     (length (js ''000000018'') = 9 \<and> list_all is_digit (js ''000000018'')
      \<and> spec_checksum (js ''000000018'') mod 10 = 0)
   \<and> spec_checksum (js ''000000018'') = 10
   \<and> spec_checksum (js ''123456789'') = 47"
proof -
  have a: "spec_checksum (js ''000000018'') = 10"
    by (simp add: spec_checksum_def spec_adjusted_def js_Nil js_Cons digit_value_def
          sum.atLeast_Suc_lessThan)
  have b: "spec_checksum (js ''123456789'') = 47"
    by (simp add: spec_checksum_def spec_adjusted_def js_Nil js_Cons digit_value_def
          sum.atLeast_Suc_lessThan)
  from C1_id [of "js ''000000018''"] a b show ?thesis by blast
qed

text \<open>
  Claim C10. The all-zero identifier \<open>000000000\<close> is accepted: its weighted digit sum
  is 0, which is divisible by 10.
\<close>

theorem C10_all_zero:
  "isValidIsraeliId (Some (js ''000000000'')) \<and> spec_checksum (js ''000000000'') = 0"
  by (simp add: isValidIsraeliId_Some spec_israeli_id_def spec_checksum_def spec_adjusted_def
      js_Nil js_Cons is_digit_def digit_value_def sum.atLeast_Suc_lessThan)

theorem C10_all_zero_witness:
  "isValidIsraeliId (Some (js ''000000000''))"
  using C10_all_zero by blast

subsection \<open>Changing one digit of an identifier\<close>

lemma is_digit_unat: "is_digit c \<Longrightarrow> 48 \<le> unat c \<and> unat c \<le> 57"
  by (simp add: is_digit_def word_le_nat_alt)

lemma digit_value_less: "is_digit c \<Longrightarrow> digit_value c < 10"
  using is_digit_unat [of c] unfolding digit_value_def by arith

lemma digit_value_inj:
  assumes "is_digit a" "is_digit b" "digit_value a = digit_value b"
  shows "a = b"
proof -
  have "unat a = unat b"
    using assms(3) is_digit_unat [OF assms(1)] is_digit_unat [OF assms(2)]
    unfolding digit_value_def by arith
  then show ?thesis by (simp add: word_unat_eq_iff)
qed

lemma adjust_less:
  fixes x w :: nat
  assumes "x < 10" "w = 1 \<or> w = 2"
  shows "(if x * w > 9 then x * w - 9 else x * w) < 10"
  using assms by auto

lemma double_minus_9_odd:
  fixes u v :: nat
  assumes "9 < v * 2" "u * 2 = v * 2 - 9"
  shows False
proof -
  from assms have "u * 2 + 9 = v * 2" by simp
  then have "even (u * 2 + 9)" by simp
  then show False by simp
qed

lemma adjust_inj:
  fixes x y w :: nat
  assumes "x < 10" "y < 10" "w = 1 \<or> w = 2"
    and "(if x * w > 9 then x * w - 9 else x * w) = (if y * w > 9 then y * w - 9 else y * w)"
  shows "x = y"
proof -
  from assms(3) show ?thesis
  proof
    assume "w = 1"
    with assms show ?thesis by simp
  next
    assume "w = 2"
    with assms(4) double_minus_9_odd [of y x] double_minus_9_odd [of x y]
    show ?thesis by (auto split: if_splits)
  qed
qed

lemma mod10_cancel:
  fixes a b r :: nat
  assumes "a < 10" "b < 10" "(a + r) mod 10 = 0" "(b + r) mod 10 = 0"
  shows "a = b"
proof -
  from assms(3) obtain k where k: "a + r = 10 * k"
    by (auto simp: mod_eq_0_iff_dvd elim!: dvdE)
  from assms(4) obtain l where l: "b + r = 10 * l"
    by (auto simp: mod_eq_0_iff_dvd elim!: dvdE)
  consider "k = l" | "k < l" | "l < k" by (rule linorder_cases)
  then show ?thesis
  proof cases
    case 1
    with k l have "a + r = b + r" by simp
    then show ?thesis by simp
  next
    case 2
    then have "Suc k \<le> l" by simp
    then have "10 * Suc k \<le> 10 * l" by (rule mult_le_mono2)
    with k l have "a + r + 10 \<le> b + r" by simp
    with assms(2) show ?thesis by simp
  next
    case 3
    then have "Suc l \<le> k" by simp
    then have "10 * Suc l \<le> 10 * k" by (rule mult_le_mono2)
    with k l have "b + r + 10 \<le> a + r" by simp
    with assms(1) show ?thesis by simp
  qed
qed

lemma spec_adjusted_alt:
  "spec_adjusted i c =
     (if digit_value c * (if even i then 1 else 2) > 9
      then digit_value c * (if even i then 1 else 2) - 9
      else digit_value c * (if even i then 1 else 2))"
  by (simp add: spec_adjusted_def Let_def)

lemma spec_adjusted_less: "is_digit c \<Longrightarrow> spec_adjusted i c < 10"
  unfolding spec_adjusted_alt
  by (rule adjust_less [OF digit_value_less]) simp_all

lemma spec_adjusted_inj:
  assumes "is_digit a" "is_digit b" "spec_adjusted i a = spec_adjusted i b"
  shows "a = b"
proof -
  have "digit_value a = digit_value b"
    by (rule adjust_inj [OF digit_value_less [OF assms(1)] digit_value_less [OF assms(2)] _
          assms(3) [unfolded spec_adjusted_alt]]) simp
  then show ?thesis using assms(1,2) by (simp add: digit_value_inj)
qed

lemma spec_checksum_split:
  assumes "i < 9"
  shows "spec_checksum s =
           spec_adjusted i (s ! i) + (\<Sum>k \<in> {0..<9} - {i}. spec_adjusted k (s ! k))"
  unfolding spec_checksum_def using assms by (intro sum.remove) simp_all

lemma spec_checksum_update:
  assumes "i < 9" "length s = 9"
  shows "spec_checksum (s[i := d]) =
           spec_adjusted i d + (\<Sum>k \<in> {0..<9} - {i}. spec_adjusted k (s ! k))"
proof -
  have "(\<Sum>k \<in> {0..<9} - {i}. spec_adjusted k (s[i := d] ! k)) =
        (\<Sum>k \<in> {0..<9} - {i}. spec_adjusted k (s ! k))"
    by (rule sum.cong) simp_all
  then show ?thesis
    using spec_checksum_split [OF assms(1), of "s[i := d]"] assms by simp
qed

text \<open>
  Claim C5. Replacing the digit at any one position \<open>i < 9\<close> of an accepted identifier by
  a different digit gives an identifier that is rejected.
\<close>

theorem C5_single_digit_mutation:
  assumes valid: "isValidIsraeliId (Some s)"
    and i: "i < 9"
    and d: "is_digit d"
    and neq: "d \<noteq> s ! i"
  shows "\<not> isValidIsraeliId (Some (s[i := d]))"
proof
  assume mut: "isValidIsraeliId (Some (s[i := d]))"
  from valid have len: "length s = 9" and digs: "list_all is_digit s"
    and chk: "spec_checksum s mod 10 = 0"
    by (simp_all add: isValidIsraeliId_Some spec_israeli_id_def)
  from mut have chk': "spec_checksum (s[i := d]) mod 10 = 0"
    by (simp add: isValidIsraeliId_Some spec_israeli_id_def)
  from digs i len have si: "is_digit (s ! i)"
    by (simp add: list_all_length)
  define r where "r = (\<Sum>k \<in> {0..<9} - {i}. spec_adjusted k (s ! k))"
  have a: "(spec_adjusted i (s ! i) + r) mod 10 = 0"
    using chk spec_checksum_split [OF i, of s] by (simp add: r_def)
  have b: "(spec_adjusted i d + r) mod 10 = 0"
    using chk' spec_checksum_update [OF i len, of d] by (simp add: r_def)
  have "spec_adjusted i (s ! i) = spec_adjusted i d"
    by (rule mod10_cancel [OF spec_adjusted_less [OF si] spec_adjusted_less [OF d] a b])
  then have "s ! i = d"
    using si d by (simp add: spec_adjusted_inj)
  with neq show False by simp
qed

theorem C5_single_digit_mutation_witness:
  "isValidIsraeliId (Some (js ''000000018'')) \<and> (7::nat) < 9 \<and> is_digit 50
   \<and> (50 :: jschar) \<noteq> js ''000000018'' ! 7
   \<and> \<not> isValidIsraeliId (Some ((js ''000000018'')[7 := 50]))"
proof -
  have n: "(50 :: jschar) \<noteq> js ''000000018'' ! 7"
    by (simp add: js_Nil js_Cons)
  have dg: "is_digit 50"
    by (simp add: is_digit_def)
  have lt: "(7::nat) < 9"
    by simp
  from C5_single_digit_mutation [OF id_000000018 lt dg n] id_000000018 lt dg n
  show ?thesis by blast
qed

section \<open>The main-phone rule\<close>

lemma forEach_main_eq:
  "forEach_main k phones =
     map (\<lambda>i. mk_issue custom [Idx (k + i), Key ''isMain''] (Msg ''Only one phone can be main.''))
       (filter (\<lambda>i. isMain (phones ! i)) [0..<length phones])"
proof (induction phones arbitrary: k)
  case Nil
  show ?case by simp
next
  case (Cons ph phones)
  have upt: "[0..<length (ph # phones)] = 0 # map Suc [0..<length phones]"
    by (simp add: upt_conv_Cons map_Suc_upt del: upt_Suc)
  show ?case
    unfolding upt by (simp add: Cons.IH filter_map comp_def)
qed

lemma length_forEach_main:
  "length (forEach_main k phones) = length (filter isMain phones)"
  by (induction phones arbitrary: k) simp_all

text \<open>
  Claim C3. The main-phone rule adds, for a list with no entry marked main, exactly one
  issue, at the array root; for a list with exactly one entry marked main, nothing; and
  for a list with more than one, one issue at \<open>[index, isMain]\<close> for each entry marked
  main and for no other, so as many issues as there are entries marked main.
\<close>

theorem C3_main_phone_rule:
  "(length (filter isMain phones) = 0 \<longrightarrow>
      mainPhoneRule phones = [mk_issue custom [] (Msg ''One phone number must be marked as main.'')])
   \<and> (length (filter isMain phones) = 1 \<longrightarrow> mainPhoneRule phones = [])
   \<and> (length (filter isMain phones) > 1 \<longrightarrow>
        mainPhoneRule phones =
          map (\<lambda>i. mk_issue custom [Idx i, Key ''isMain''] (Msg ''Only one phone can be main.''))
            (filter (\<lambda>i. isMain (phones ! i)) [0..<length phones])
        \<and> length (mainPhoneRule phones) = length (filter isMain phones))"
  using forEach_main_eq [of 0 phones] length_forEach_main [of 0 phones]
  by (simp add: mainPhoneRule_def Let_def)


theorem C3_main_phone_rule_witness:
  "mainPhoneRule [\<lparr>type = js ''Home'', number = js ''02-1234567'', isMain = False\<rparr>,
                  \<lparr>type = js ''Mobile'', number = js ''050-123-4567'', isMain = False\<rparr>]
     = [mk_issue custom [] (Msg ''One phone number must be marked as main.'')]
   \<and> mainPhoneRule [\<lparr>type = js ''Home'', number = js ''02-1234567'', isMain = True\<rparr>,
                    \<lparr>type = js ''Mobile'', number = js ''050-123-4567'', isMain = False\<rparr>]
     = []
   \<and> mainPhoneRule [\<lparr>type = js ''Home'', number = js ''02-1234567'', isMain = True\<rparr>,
                    \<lparr>type = js ''Mobile'', number = js ''050-123-4567'', isMain = True\<rparr>]
     = [mk_issue custom [Idx 0, Key ''isMain''] (Msg ''Only one phone can be main.''),
        mk_issue custom [Idx 1, Key ''isMain''] (Msg ''Only one phone can be main.'')]"
proof -
  let ?h = "\<lambda>b. \<lparr>type = js ''Home'', number = js ''02-1234567'', isMain = b\<rparr>"
  let ?m = "\<lambda>b. \<lparr>type = js ''Mobile'', number = js ''050-123-4567'', isMain = b\<rparr>"
  have upt2: "[0..<2] = [0, Suc 0]"
    by (simp add: upt_rec)
  have a: "mainPhoneRule [?h False, ?m False]
             = [mk_issue custom [] (Msg ''One phone number must be marked as main.'')]"
    using C3_main_phone_rule [of "[?h False, ?m False]"] by simp
  have b: "mainPhoneRule [?h True, ?m False] = []"
    using C3_main_phone_rule [of "[?h True, ?m False]"] by simp
  have c: "mainPhoneRule [?h True, ?m True]
             = [mk_issue custom [Idx 0, Key ''isMain''] (Msg ''Only one phone can be main.''),
                mk_issue custom [Idx 1, Key ''isMain''] (Msg ''Only one phone can be main.'')]"
    using C3_main_phone_rule [of "[?h True, ?m True]"] by (simp add: upt2)
  from a b c show ?thesis by blast
qed

section \<open>Properties of the schema language\<close>

lemma is_valid_iff: "is_valid s = (\<exists>v. s = VALID v)"
  by (cases s) simp_all

lemma is_valid_dirty [simp]: "\<not> is_valid (dirty s)"
  by (cases s) simp_all

lemma is_valid_map_status [simp]: "is_valid (map_status f s) = is_valid s"
  by (cases s) simp_all

lemma is_valid_pair_status [simp]: "is_valid (pair_status a b) = (is_valid a \<and> is_valid b)"
  by (cases a; cases b) simp_all

lemma map_status_VALID_iff: "map_status f s = VALID v \<longleftrightarrow> (\<exists>x. s = VALID x \<and> v = f x)"
  by (cases s) auto

lemma pair_status_VALID_iff:
  "pair_status a b = VALID v \<longleftrightarrow> (\<exists>x y. a = VALID x \<and> b = VALID y \<and> v = (x, y))"
  by (cases a; cases b) auto

lemma mergeArray_VALID_iff: "mergeArray d rs = VALID vs \<longleftrightarrow> \<not> d \<and> rs = map VALID vs"
proof (induction rs arbitrary: d vs)
  case Nil
  show ?case by auto
next
  case (Cons r rs)
  show ?case
  proof (cases r)
    case (VALID v)
    then show ?thesis by (auto simp: Cons.IH map_status_VALID_iff)
  next
    case (DIRTY v)
    then show ?thesis by (auto simp: Cons.IH map_status_VALID_iff)
  next
    case ABORTED
    then show ?thesis by auto
  qed
qed

lemma is_valid_mergeArray: "is_valid (mergeArray d rs) = (\<not> d \<and> list_all is_valid rs)"
proof (induction rs arbitrary: d)
  case Nil
  show ?case by simp
next
  case (Cons r rs)
  show ?case by (cases r) (simp_all add: Cons.IH)
qed

lemma consistent_field: "consistent a \<Longrightarrow> consistent b \<Longrightarrow> consistent (field a b)"
  by (auto simp: consistent_def field_def)

lemma consistent_object: "consistent r \<Longrightarrow> consistent (object f r)"
  by (simp add: consistent_def object_def)

lemma consistent_string_checks:
  "consistent acc \<Longrightarrow> consistent (string_checks cs p s acc)"
proof (induction cs p s acc rule: string_checks.induct)
  case (1 p s acc)
  then show ?case by (simp add: consistent_def)
next
  case (2 n m cs p s "is" st)
  then show ?case by (simp add: consistent_def)
next
  case (3 n m cs p s "is" st)
  then show ?case by (simp add: consistent_def)
next
  case (4 n m cs p s "is" st)
  then show ?case by (simp add: consistent_def)
next
  case (5 cs p s "is" st)
  then show ?case by simp
qed

lemma consistent_z_string: "consistent (z_string cs p raw)"
proof (cases raw)
  case None
  then show ?thesis by (simp add: z_string_def consistent_def)
next
  case (Some s)
  have "consistent (string_checks cs p s ([], VALID s))"
    by (rule consistent_string_checks) (simp add: consistent_def)
  with Some show ?thesis by (simp add: z_string_def)
qed

lemma consistent_number_checks:
  "consistent acc \<Longrightarrow> consistent (number_checks cs p n acc)"
proof (induction cs p n acc rule: number_checks.induct)
  case (1 p n acc)
  then show ?case by simp
next
  case (2 m cs p n "is" st)
  then show ?case by (simp add: consistent_def)
next
  case (3 v inclusive m cs p n "is" st)
  then show ?case by (simp add: consistent_def)
qed

lemma consistent_z_coerce_number: "consistent (z_coerce_number f e cs p raw)"
proof (cases "js_Number f raw = NaN")
  case True
  then show ?thesis by (simp add: z_coerce_number_def consistent_def)
next
  case False
  have "consistent (number_checks cs p (js_Number f raw) ([], VALID (js_Number f raw)))"
    by (rule consistent_number_checks) (simp add: consistent_def)
  with False show ?thesis by (simp add: z_coerce_number_def Let_def)
qed

lemma consistent_z_enum: "consistent (z_enum vs e p raw)"
  by (cases raw) (simp_all add: z_enum_def consistent_def)

lemma consistent_z_boolean: "consistent (z_boolean p raw)"
  by (simp add: z_boolean_def consistent_def split: option.splits raw_boolean.splits)

lemma consistent_z_default:
  "(\<And>x. consistent (inner p (Some x))) \<Longrightarrow> consistent (z_default d inner p raw)"
  by (cases raw) (simp_all add: z_default_def)

lemma consistent_z_optional:
  "(\<And>x. consistent (inner p (Some x))) \<Longrightarrow> consistent (z_optional inner p raw)"
  by (cases raw) (simp_all add: z_optional_def consistent_def Let_def)

lemma consistent_refine:
  assumes "consistent (inner p raw)"
  shows "consistent (refine check m inner p raw)"
proof (cases "inner p raw")
  case (Pair "is" st)
  with assms show ?thesis
    by (cases st) (simp_all add: refine_def consistent_def)
qed

lemma consistent_superRefine:
  assumes "consistent (inner p raw)"
  shows "consistent (superRefine f inner p raw)"
proof (cases "inner p raw")
  case (Pair "is" st)
  with assms show ?thesis
    by (cases st) (simp_all add: superRefine_def consistent_def)
qed

lemma consistent_z_array:
  assumes "\<And>q x. consistent (element q x)"
  shows "consistent (z_array n m element p raw)"
proof (cases raw)
  case None
  then show ?thesis by (simp add: z_array_def consistent_def)
next
  case (Some xs)
  have "(\<forall>r \<in> set (map (\<lambda>(i, x). element (p @ [Idx i]) x) (enumerate 0 xs)). fst r = [])
        = list_all is_valid (map snd (map (\<lambda>(i, x). element (p @ [Idx i]) x) (enumerate 0 xs)))"
    using assms by (auto simp: list_all_iff consistent_def)
  then show ?thesis
    using Some by (auto simp: z_array_def Let_def consistent_def is_valid_mergeArray)
qed

lemma consistent_phoneNumberSchema: "consistent (phoneNumberSchema p raw)"
  unfolding phoneNumberSchema_def phoneTypeEnum_def
  by (intro consistent_object consistent_field consistent_z_enum consistent_refine
        consistent_z_string consistent_z_default consistent_z_boolean)

lemma consistent_addressSchema: "consistent (addressSchema f p raw)"
  unfolding addressSchema_def addressTypeEnum_def
  by (intro consistent_object consistent_field consistent_z_enum consistent_z_string
        consistent_z_coerce_number consistent_z_optional)

lemma consistent_patientSchema: "consistent (patientSchema f p raw)"
  unfolding patientSchema_def hmoEnum_def
  by (intro consistent_object consistent_field consistent_z_enum consistent_refine
        consistent_z_string consistent_superRefine consistent_z_array
        consistent_phoneNumberSchema consistent_addressSchema)

lemma consistent_VALID: "consistent r \<Longrightarrow> snd r = VALID v \<Longrightarrow> r = ([], VALID v)"
  by (cases r) (simp add: consistent_def)

lemma fst_field [simp]: "fst (field a b) = fst a @ fst b"
  by (simp add: field_def)

lemma snd_field [simp]: "snd (field a b) = pair_status (snd a) (snd b)"
  by (simp add: field_def)

lemma fst_object [simp]: "fst (object f r) = fst r"
  by (simp add: object_def)

lemma snd_object [simp]: "snd (object f r) = map_status f (snd r)"
  by (simp add: object_def)

lemma fst_refine: "set (fst (inner p raw)) \<subseteq> set (fst (refine check m inner p raw))"
proof (cases "inner p raw")
  case (Pair "is" st)
  then show ?thesis by (cases st) (auto simp: refine_def)
qed

lemma snd_refine_VALID_iff:
  "snd (refine check m inner p raw) = VALID v \<longleftrightarrow> snd (inner p raw) = VALID v \<and> check v"
proof (cases "inner p raw")
  case (Pair "is" st)
  then show ?thesis by (cases st) (auto simp: refine_def)
qed

lemma fst_superRefine: "set (fst (inner p raw)) \<subseteq> set (fst (superRefine f inner p raw))"
proof (cases "inner p raw")
  case (Pair "is" st)
  then show ?thesis by (cases st) (auto simp: superRefine_def)
qed

lemma snd_superRefine_VALID_iff:
  "snd (superRefine f inner p raw) = VALID v \<longleftrightarrow> snd (inner p raw) = VALID v \<and> f v = []"
proof (cases "inner p raw")
  case (Pair "is" st)
  then show ?thesis by (cases st) (auto simp: superRefine_def)
qed

lemma is_valid_superRefine:
  "is_valid (snd (superRefine f inner p raw)) \<Longrightarrow> is_valid (snd (inner p raw))"
  by (auto simp: is_valid_iff snd_superRefine_VALID_iff)

lemma z_array_empty:
  "z_array (Suc n) m element p (Some []) = ([mk_issue too_small p m], DIRTY [])"
  by (simp add: z_array_def)

lemma validate_Failure:
  assumes "\<not> is_valid (snd (patientSchema f [] raw))"
  shows "validate f raw = Failure (fst (patientSchema f [] raw))"
proof -
  have "fst (patientSchema f [] raw) \<noteq> []"
    using consistent_patientSchema [where f = f and p = "[]" and raw = raw] assms by (simp add: consistent_def)
  with assms show ?thesis
    by (cases "patientSchema f [] raw"; cases "snd (patientSchema f [] raw)")
       (auto simp: validate_def)
qed

lemma validate_Success_iff:
  "validate f raw = Success v \<longleftrightarrow> snd (patientSchema f [] raw) = VALID v"
  by (cases "patientSchema f [] raw"; cases "snd (patientSchema f [] raw)")
     (auto simp: validate_def)

lemma validate_Success_issues:
  assumes "validate f raw = Success v"
  shows "patientSchema f [] raw = ([], VALID v)"
  using assms consistent_VALID [OF consistent_patientSchema] by (simp add: validate_Success_iff)

lemma is_valid_patientSchema_phones:
  assumes "is_valid (snd (patientSchema f p raw))"
  shows "is_valid (snd (z_array 1 (Msg ''At least one phone number is required'')
           phoneNumberSchema (p @ [Key ''phoneNumbers'']) (raw_phoneNumbers raw)))"
  using assms by (auto simp: patientSchema_def dest: is_valid_superRefine)

lemma is_valid_patientSchema_addresses:
  assumes "is_valid (snd (patientSchema f p raw))"
  shows "is_valid (snd (z_array 1 (Msg ''At least one address is required'')
           (addressSchema f) (p @ [Key ''addresses'']) (raw_addresses raw)))"
  using assms by (simp add: patientSchema_def)

lemma issues_patientSchema_phones:
  "set (fst (z_array 1 (Msg ''At least one phone number is required'')
           phoneNumberSchema (p @ [Key ''phoneNumbers'']) (raw_phoneNumbers raw)))
   \<subseteq> set (fst (patientSchema f p raw))"
  using fst_superRefine [where inner = "z_array 1 (Msg ''At least one phone number is required'')
           phoneNumberSchema" and p = "p @ [Key ''phoneNumbers'']" and raw = "raw_phoneNumbers raw"
           and f = mainPhoneRule]
  by (auto simp: patientSchema_def)

lemma issues_patientSchema_addresses:
  "set (fst (z_array 1 (Msg ''At least one address is required'')
           (addressSchema f) (p @ [Key ''addresses'']) (raw_addresses raw)))
   \<subseteq> set (fst (patientSchema f p raw))"
  by (auto simp: patientSchema_def)

text \<open>
  Claim C6. A raw record whose \<open>phoneNumbers\<close> list is empty, or whose \<open>addresses\<close> list
  is empty, is never accepted, whatever its other fields hold: validation fails and
  the issues it returns include the one of that collection (at least one phone number
  is required, at least one address is required).
\<close>

theorem C6_empty_collections:
  "(raw_phoneNumbers raw = Some [] \<longrightarrow>
      (\<exists>is. validate f raw = Failure is
          \<and> mk_issue too_small [Key ''phoneNumbers'']
               (Msg ''At least one phone number is required'') \<in> set is))
   \<and> (raw_addresses raw = Some [] \<longrightarrow>
      (\<exists>is. validate f raw = Failure is
          \<and> mk_issue too_small [Key ''addresses'']
               (Msg ''At least one address is required'') \<in> set is))"
proof (intro conjI impI)
  assume e: "raw_phoneNumbers raw = Some []"
  have "\<not> is_valid (snd (patientSchema f [] raw))"
    using is_valid_patientSchema_phones [where f = f and p = "[]" and raw = raw] e by (auto simp: z_array_empty)
  then have "validate f raw = Failure (fst (patientSchema f [] raw))"
    by (rule validate_Failure)
  moreover have "mk_issue too_small [Key ''phoneNumbers'']
                   (Msg ''At least one phone number is required'')
                 \<in> set (fst (patientSchema f [] raw))"
    using issues_patientSchema_phones [where f = f and p = "[]" and raw = raw] e by (simp add: z_array_empty)
  ultimately show "\<exists>is. validate f raw = Failure is
          \<and> mk_issue too_small [Key ''phoneNumbers'']
               (Msg ''At least one phone number is required'') \<in> set is"
    by blast
next
  assume e: "raw_addresses raw = Some []"
  have "\<not> is_valid (snd (patientSchema f [] raw))"
    using is_valid_patientSchema_addresses [where f = f and p = "[]" and raw = raw] e by (auto simp: z_array_empty)
  then have "validate f raw = Failure (fst (patientSchema f [] raw))"
    by (rule validate_Failure)
  moreover have "mk_issue too_small [Key ''addresses'']
                   (Msg ''At least one address is required'')
                 \<in> set (fst (patientSchema f [] raw))"
    using issues_patientSchema_addresses [where f = f and p = "[]" and raw = raw] e by (simp add: z_array_empty)
  ultimately show "\<exists>is. validate f raw = Failure is
          \<and> mk_issue too_small [Key ''addresses'']
               (Msg ''At least one address is required'') \<in> set is"
    by blast
qed

theorem C6_empty_collections_witness:
  "(\<exists>is. validate (\<lambda>s. NaN)
            \<lparr>raw_id = Some (js ''000000018''), raw_firstName = Some (js ''Dana''),
             raw_lastName = Some (js ''Levi''), raw_phoneNumbers = Some [],
             raw_hmo = Some (js ''Clalit''), raw_addresses = Some []\<rparr> = Failure is
         \<and> mk_issue too_small [Key ''phoneNumbers'']
              (Msg ''At least one phone number is required'') \<in> set is)
   \<and> (\<exists>is. validate (\<lambda>s. NaN)
            \<lparr>raw_id = Some (js ''000000018''), raw_firstName = Some (js ''Dana''),
             raw_lastName = Some (js ''Levi''), raw_phoneNumbers = Some [],
             raw_hmo = Some (js ''Clalit''), raw_addresses = Some []\<rparr> = Failure is
         \<and> mk_issue too_small [Key ''addresses'']
              (Msg ''At least one address is required'') \<in> set is)"
  using C6_empty_collections
    [of "\<lparr>raw_id = Some (js ''000000018''), raw_firstName = Some (js ''Dana''),
             raw_lastName = Some (js ''Levi''), raw_phoneNumbers = Some [],
             raw_hmo = Some (js ''Clalit''), raw_addresses = Some []\<rparr>" "\<lambda>s. NaN"]
  by simp

section \<open>When the schemas accept\<close>

lemma js_trim_idem: "js_trim (js_trim s) = js_trim s"
proof -
  define t where "t = dropWhile is_js_whitespace s"
  define u where "u = dropWhile is_js_whitespace (rev t)"
  have u: "dropWhile is_js_whitespace u = u"
    by (simp add: u_def dropWhile_idem)
  have "dropWhile is_js_whitespace (rev u) = rev u"
  proof (cases "u = []")
    case True
    then show ?thesis by simp
  next
    case False
    then have "rev t \<noteq> []" by (auto simp: u_def)
    then have t: "t \<noteq> []" by simp
    then have h: "\<not> is_js_whitespace (hd t)"
      unfolding t_def by (rule hd_dropWhile)
    obtain k where k: "u = drop k (rev t)"
      unfolding u_def by (metis dropWhile_eq_drop)
    have "rev u = take (length t - k) t"
      using k by (simp add: rev_drop)
    moreover from False k have "k < length t" by auto
    ultimately have "hd (rev u) = hd t"
      using t by (cases t) (auto simp: take_Cons' )
    with h False show ?thesis by (cases "rev u") auto
  qed
  then show ?thesis
    by (simp add: js_trim_def t_def [symmetric] u_def [symmetric] u)
qed

lemma z_string_Min_VALID:
  "snd (z_string [Min n m] p raw) = VALID v \<longleftrightarrow> raw = Some v \<and> n \<le> length v"
  by (cases raw) (auto simp: z_string_def)

lemma z_string_Length_VALID:
  "snd (z_string [Length n m] p raw) = VALID v \<longleftrightarrow> raw = Some v \<and> length v = n"
  by (cases raw) (auto simp: z_string_def)

lemma z_string_Trim_Min_VALID:
  "snd (z_string [Trim, Min n m] p raw) = VALID v \<longleftrightarrow>
     (\<exists>s. raw = Some s \<and> v = js_trim s \<and> n \<le> length (js_trim s))"
  by (cases raw) (auto simp: z_string_def)

lemma z_optional_Max_VALID:
  "snd (z_optional (z_string [Max n m]) p raw) = VALID v \<longleftrightarrow>
     raw = v \<and> (case v of None \<Rightarrow> True | Some s \<Rightarrow> length s \<le> n)"
  by (cases raw) (auto simp: z_optional_def z_string_def Let_def)

lemma z_enum_VALID:
  "snd (z_enum vs e p raw) = VALID v \<longleftrightarrow> raw = Some v \<and> v \<in> set vs"
  by (cases raw) (auto simp: z_enum_def)

lemma z_default_boolean_VALID:
  "snd (z_default (RawBoolean d) z_boolean p raw) = VALID v \<longleftrightarrow>
     (raw = None \<and> v = d) \<or> raw = Some (RawBoolean v)"
  by (auto simp: z_default_def z_boolean_def split: option.splits raw_boolean.splits)

lemma streetNumber_VALID:
  "snd (z_coerce_number f e [IntCheck a, MinCheck 0 False b, MinCheck 1 True c] p raw) = VALID n
   \<longleftrightarrow> js_Number f raw = n \<and> n \<noteq> NaN \<and> isInteger n \<and> \<not> num_le n 0 \<and> \<not> num_less n 1"
  by (auto simp: z_coerce_number_def Let_def)

lemma z_array_VALID_iff:
  "snd (z_array n m element p raw) = VALID vs \<longleftrightarrow>
     (\<exists>xs. raw = Some xs \<and> n \<le> length xs \<and> length vs = length xs
        \<and> (\<forall>i < length xs. snd (element (p @ [Idx i]) (xs ! i)) = VALID (vs ! i)))"
proof (cases raw)
  case None
  then show ?thesis by (simp add: z_array_def)
next
  case (Some xs)
  have "(map snd (map (\<lambda>(i, x). element (p @ [Idx i]) x) (enumerate 0 xs)) = map VALID vs)
        = (length vs = length xs
           \<and> (\<forall>i < length xs. snd (element (p @ [Idx i]) (xs ! i)) = VALID (vs ! i)))"
    by (auto simp: list_eq_iff_nth_eq nth_enumerate_eq)
  then show ?thesis
    using Some by (auto simp: z_array_def Let_def mergeArray_VALID_iff)
qed

lemma z_array_idem:
  assumes el: "\<And>q x v q'. snd (element q x) = VALID v \<Longrightarrow> snd (element q' (back v)) = VALID v"
    and "snd (z_array n m element p raw) = VALID vs"
  shows "snd (z_array n m element p' (Some (map back vs))) = VALID vs"
  using assms(2) by (auto simp: z_array_VALID_iff intro: el)

lemma phoneNumberSchema_VALID:
  "snd (phoneNumberSchema p raw) = VALID v \<longleftrightarrow>
     raw_type raw = Some (type v)
     \<and> type v \<in> set [js ''Home'', js ''Mobile'', js ''Work'', js ''Other'']
     \<and> raw_number raw = Some (number v) \<and> 1 \<le> length (number v)
     \<and> isValidIsraeliPhoneNumber (Some (number v))
     \<and> ((raw_isMain raw = None \<and> \<not> isMain v) \<or> raw_isMain raw = Some (RawBoolean (isMain v)))"
  unfolding phoneNumberSchema_def phoneTypeEnum_def snd_object snd_field
    map_status_VALID_iff pair_status_VALID_iff snd_refine_VALID_iff
    z_enum_VALID z_string_Min_VALID z_default_boolean_VALID
  by (cases v) auto

lemma phoneNumberSchema_idem:
  assumes "snd (phoneNumberSchema p raw) = VALID v"
  shows "snd (phoneNumberSchema p' (raw_of_phone v)) = VALID v"
  using assms unfolding phoneNumberSchema_VALID by (simp add: raw_of_phone_def)

lemma addressSchema_VALID:
  "snd (addressSchema f p raw) = VALID v \<longleftrightarrow>
     raw_cityCode raw = Some (cityCode v) \<and> 1 \<le> length (cityCode v)
     \<and> raw_cityName raw = Some (cityName v) \<and> 1 \<le> length (cityName v)
     \<and> raw_streetCode raw = Some (streetCode v) \<and> 1 \<le> length (streetCode v)
     \<and> raw_streetName raw = Some (streetName v) \<and> 1 \<le> length (streetName v)
     \<and> js_Number f (raw_streetNumber raw) = streetNumber v \<and> streetNumber v \<noteq> NaN
     \<and> isInteger (streetNumber v) \<and> \<not> num_le (streetNumber v) 0
     \<and> \<not> num_less (streetNumber v) 1
     \<and> raw_addressType raw = Some (addressType v)
     \<and> addressType v \<in> set [js ''Home'', js ''Work'', js ''Other'']
     \<and> raw_comments raw = comments v
     \<and> (case comments v of None \<Rightarrow> True | Some s \<Rightarrow> length s \<le> 500)"
  unfolding addressSchema_def addressTypeEnum_def snd_object snd_field
    map_status_VALID_iff pair_status_VALID_iff
    z_enum_VALID z_string_Min_VALID streetNumber_VALID z_optional_Max_VALID
  by (cases v) auto

lemma addressSchema_idem:
  assumes "snd (addressSchema f p raw) = VALID v"
  shows "snd (addressSchema f p' (raw_of_address v)) = VALID v"
  using assms unfolding addressSchema_VALID by (simp add: raw_of_address_def)

lemma patientSchema_VALID:
  "snd (patientSchema f p raw) = VALID v \<longleftrightarrow>
     raw_id raw = Some (id' v) \<and> length (id' v) = 9 \<and> isValidIsraeliId (Some (id' v))
     \<and> (\<exists>s. raw_firstName raw = Some s \<and> firstName v = js_trim s \<and> 1 \<le> length (js_trim s))
     \<and> (\<exists>s. raw_lastName raw = Some s \<and> lastName v = js_trim s \<and> 1 \<le> length (js_trim s))
     \<and> snd (z_array 1 (Msg ''At least one phone number is required'') phoneNumberSchema
              (p @ [Key ''phoneNumbers'']) (raw_phoneNumbers raw)) = VALID (phoneNumbers v)
     \<and> mainPhoneRule (phoneNumbers v) = []
     \<and> raw_hmo raw = Some (hmo v)
     \<and> hmo v \<in> set [js ''Clalit'', js ''Maccabi'', js ''Mehuedet'', js ''Leumit'']
     \<and> snd (z_array 1 (Msg ''At least one address is required'') (addressSchema f)
              (p @ [Key ''addresses'']) (raw_addresses raw)) = VALID (addresses v)"
  unfolding patientSchema_def hmoEnum_def snd_object snd_field
    map_status_VALID_iff pair_status_VALID_iff snd_refine_VALID_iff snd_superRefine_VALID_iff
    z_enum_VALID z_string_Length_VALID z_string_Trim_Min_VALID
  by (cases v) auto

lemma patientSchema_idem:
  assumes "snd (patientSchema f p raw) = VALID v"
  shows "snd (patientSchema f p' (raw_of_patient v)) = VALID v"
proof -
  note a = assms [unfolded patientSchema_VALID]
  have ph: "snd (z_array 1 (Msg ''At least one phone number is required'') phoneNumberSchema
              (p' @ [Key ''phoneNumbers'']) (Some (map raw_of_phone (phoneNumbers v))))
            = VALID (phoneNumbers v)"
    using a by (intro z_array_idem [where element = phoneNumberSchema]) (auto intro: phoneNumberSchema_idem)
  have ad: "snd (z_array 1 (Msg ''At least one address is required'') (addressSchema f)
              (p' @ [Key ''addresses'']) (Some (map raw_of_address (addresses v))))
            = VALID (addresses v)"
    using a by (intro z_array_idem [where element = "addressSchema f"]) (auto intro: addressSchema_idem)
  from a have fn: "js_trim (firstName v) = firstName v" and ln: "js_trim (lastName v) = lastName v"
    by (auto simp: js_trim_idem)
  from a have fl: "1 \<le> length (firstName v)" and ll: "1 \<le> length (lastName v)"
    by auto
  show ?thesis
    unfolding patientSchema_VALID using a ph ad fn ln fl ll
    by (simp add: raw_of_patient_def)
qed

text \<open>
  Claim C7. Validation is idempotent on its own output: when a raw record validates, the
  normalized record it gives (names trimmed, street number a number, \<open>isMain\<close> filled
  in) validates again, with no issue and with the same normalized record as the result.
\<close>

theorem C7_idempotent:
  assumes "validate f raw = Success v"
  shows "validate f (raw_of_patient v) = Success v
         \<and> fst (patientSchema f [] (raw_of_patient v)) = []"
proof -
  from assms have "snd (patientSchema f [] raw) = VALID v"
    by (simp add: validate_Success_iff)
  then have v: "snd (patientSchema f [] (raw_of_patient v)) = VALID v"
    by (rule patientSchema_idem)
  then have "validate f (raw_of_patient v) = Success v"
    by (simp add: validate_Success_iff)
  moreover have "fst (patientSchema f [] (raw_of_patient v)) = []"
    using consistent_VALID [OF consistent_patientSchema v] by simp
  ultimately show ?thesis by simp
qed

lemma validate_sample:
  "validate sample_string_to_number sample_raw_patient = Success sample_patient"
  unfolding validate_Success_iff patientSchema_VALID z_array_VALID_iff phoneNumberSchema_VALID
    addressSchema_VALID sample_raw_patient_def sample_patient_def sample_string_to_number_def
  by (simp add: js_Nil js_Cons js_trim_def is_js_whitespace_def All_less_Suc
        mainPhoneRule_def isValidIsraeliId_Some spec_israeli_id_def spec_checksum_def
        spec_adjusted_def is_digit_def digit_value_def sum.atLeast_Suc_lessThan
        isValidIsraeliPhoneNumber_Some cleaned_def spec_domestic_phone_def spec_phone_prefix_def)

theorem C7_idempotent_witness:
  "validate sample_string_to_number sample_raw_patient = Success sample_patient
   \<and> validate sample_string_to_number (raw_of_patient sample_patient) = Success sample_patient
   \<and> fst (patientSchema sample_string_to_number [] (raw_of_patient sample_patient)) = []
   \<and> raw_of_patient sample_patient \<noteq> sample_raw_patient"
proof -
  have "raw_of_patient sample_patient \<noteq> sample_raw_patient"
    by (simp add: raw_of_patient_def sample_patient_def sample_raw_patient_def js_Nil js_Cons)
  with C7_idempotent [OF validate_sample] validate_sample show ?thesis
    by blast
qed

section \<open>Every invalid field gets an issue\<close>

lemma path_mk_issue [simp]: "path (mk_issue c p m) = p"
  by (simp add: mk_issue_def)

lemma covers_append:
  assumes "set a \<subseteq> path ` set i1" "set b \<subseteq> path ` set i2"
  shows "set (a @ b) \<subseteq> path ` set (i1 @ i2)"
  using assms by auto

lemma covers_left:
  assumes "set a \<subseteq> path ` set i1"
  shows "set a \<subseteq> path ` set (i1 @ i2)"
  using assms by auto

lemma covers_mono:
  assumes "set a \<subseteq> path ` set i1" "set i1 \<subseteq> set i2"
  shows "set a \<subseteq> path ` set i2"
  using assms by auto

lemma covers_id:
  "set (flag (spec_id_field raw) p)
   \<subseteq> path ` set (fst (refine (\<lambda>s. isValidIsraeliId (Some s)) m
                        (z_string [Length 9 m']) p raw))"
  by (cases raw)
     (auto simp: flag_def spec_id_field_def refine_def z_string_def isValidIsraeliId_Some
        spec_israeli_id_def)

lemma covers_name:
  "set (flag (spec_nonempty_trimmed raw) p) \<subseteq> path ` set (fst (z_string [Trim, Min 1 m] p raw))"
  by (cases raw) (auto simp: flag_def spec_nonempty_trimmed_def z_string_def)

lemma covers_nonempty:
  "set (flag (spec_nonempty raw) p) \<subseteq> path ` set (fst (z_string [Min 1 m] p raw))"
  by (cases raw) (auto simp: flag_def spec_nonempty_def z_string_def)

lemma covers_enum:
  "set (flag (spec_in_enum names raw) p) \<subseteq> path ` set (fst (z_enum (map js names) e p raw))"
  by (cases raw) (auto simp: flag_def spec_in_enum_def z_enum_def)

lemma covers_phone_number:
  "set (flag (spec_phone_field raw) p)
   \<subseteq> path ` set (fst (refine (\<lambda>s. isValidIsraeliPhoneNumber (Some s)) m
                        (z_string [Min 1 m']) p raw))"
  by (cases raw)
     (auto simp: flag_def spec_phone_field_def refine_def z_string_def
        isValidIsraeliPhoneNumber_Some cleaned_def)

lemma covers_comments:
  "set (flag (spec_comments raw) p)
   \<subseteq> path ` set (fst (z_optional (z_string [Max 500 m]) p raw))"
  by (cases raw) (auto simp: flag_def spec_comments_def z_optional_def z_string_def Let_def)

lemma covers_streetNumber:
  "set (flag (spec_positive_integer (js_Number f raw)) p)
   \<subseteq> path ` set (fst (z_coerce_number f e
                        [IntCheck a, MinCheck 0 False b, MinCheck 1 True c] p raw))"
  by (cases "js_Number f raw")
     (auto simp: flag_def spec_positive_integer_def z_coerce_number_def Let_def)

lemma covers_isMain:
  "set (flag (spec_boolean_or_absent raw) p)
   \<subseteq> path ` set (fst (z_default d z_boolean p raw))"
  by (auto simp: flag_def spec_boolean_or_absent_def z_default_def z_boolean_def
        split: option.splits raw_boolean.splits)

lemma covers_phone:
  "set (spec_phone_invalid_paths p r) \<subseteq> path ` set (fst (phoneNumberSchema p r))"
  unfolding spec_phone_invalid_paths_def phoneNumberSchema_def phoneTypeEnum_def
    fst_object fst_field
  using covers_enum [where names = "[''Home'', ''Mobile'', ''Work'', ''Other'']"]
  by (intro covers_append covers_phone_number covers_isMain) simp

lemma covers_address:
  "set (spec_address_invalid_paths f p r) \<subseteq> path ` set (fst (addressSchema f p r))"
  unfolding spec_address_invalid_paths_def addressSchema_def addressTypeEnum_def
    fst_object fst_field
  using covers_enum [where names = "[''Home'', ''Work'', ''Other'']"]
  by (intro covers_append covers_nonempty covers_streetNumber covers_comments) simp

lemma covers_entries:
  assumes "\<And>q x. set (each q x) \<subseteq> path ` set (fst (element q x))"
  shows "set (spec_entries_invalid_paths each p raw)
         \<subseteq> path ` set (fst (z_array 1 m element p raw))"
proof (cases raw)
  case None
  then show ?thesis by (simp add: spec_entries_invalid_paths_def z_array_def)
next
  case (Some xs)
  have "set (concat (map (\<lambda>(i, x). each (p @ [Idx i]) x) (enumerate 0 xs)))
        \<subseteq> path ` set (concat (map fst (map (\<lambda>(i, x). element (p @ [Idx i]) x) (enumerate 0 xs))))"
    using assms by fastforce
  moreover have "set (flag (1 \<le> length xs) p)
        \<subseteq> path ` set (if length xs < 1 then [mk_issue too_small p m] else [])"
    by (cases xs) (simp_all add: flag_def)
  ultimately show ?thesis
    unfolding Some spec_entries_invalid_paths_def z_array_def option.case Let_def fst_conv
    by (rule covers_append [rotated])
qed

lemma covers_patient:
  "set (spec_invalid_paths f raw) \<subseteq> path ` set (fst (patientSchema f [] raw))"
proof -
  have ph: "set (spec_entries_invalid_paths spec_phone_invalid_paths [Key ''phoneNumbers'']
                   (raw_phoneNumbers raw))
            \<subseteq> path ` set (fst (superRefine mainPhoneRule
                  (z_array 1 (Msg ''At least one phone number is required'') phoneNumberSchema)
                  [Key ''phoneNumbers''] (raw_phoneNumbers raw)))"
  proof (rule covers_mono)
    show "set (spec_entries_invalid_paths spec_phone_invalid_paths [Key ''phoneNumbers'']
                 (raw_phoneNumbers raw))
          \<subseteq> path ` set (fst (z_array 1 (Msg ''At least one phone number is required'')
                  phoneNumberSchema [Key ''phoneNumbers''] (raw_phoneNumbers raw)))"
      by (rule covers_entries) (rule covers_phone)
  qed (rule fst_superRefine)
  have ad: "set (spec_entries_invalid_paths (spec_address_invalid_paths f) [Key ''addresses'']
                   (raw_addresses raw))
            \<subseteq> path ` set (fst (z_array 1 (Msg ''At least one address is required'')
                  (addressSchema f) [Key ''addresses''] (raw_addresses raw)))"
    by (rule covers_entries) (rule covers_address)
  have hm: "set (flag (spec_in_enum [''Clalit'', ''Maccabi'', ''Mehuedet'', ''Leumit''] (raw_hmo raw))
                   [Key ''hmo''])
            \<subseteq> path ` set (fst (hmoEnum [Key ''hmo''] (raw_hmo raw)))"
    using covers_enum [where names = "[''Clalit'', ''Maccabi'', ''Mehuedet'', ''Leumit'']"]
    by (simp add: hmoEnum_def)
  show ?thesis
    unfolding spec_invalid_paths_def patientSchema_def fst_object fst_field append_Nil
    by (intro covers_append covers_id covers_name ph ad hm)
qed

section \<open>When the main-phone rule is evaluated\<close>

lemma status_value_dirty [simp]: "status_value (dirty s) = status_value s"
  by (cases s) simp_all

lemma status_value_map_status [simp]:
  "status_value (map_status f s) = map_option f (status_value s)"
  by (cases s) simp_all

lemma status_value_pair_status:
  "status_value (pair_status a b) =
     (case status_value a of
        None \<Rightarrow> None
      | Some x \<Rightarrow> (case status_value b of None \<Rightarrow> None | Some y \<Rightarrow> Some (x, y)))"
  by (cases a; cases b) simp_all

lemma status_value_mergeArray:
  "list_all (\<lambda>r. status_value r \<noteq> None) rs \<Longrightarrow>
   status_value (mergeArray d rs) = Some (map (\<lambda>r. the (status_value r)) rs)"
proof (induction rs arbitrary: d)
  case Nil
  show ?case by simp
next
  case (Cons r rs)
  then show ?case by (cases r) simp_all
qed

lemma status_value_refine [simp]:
  "status_value (snd (refine check m inner p raw)) = status_value (snd (inner p raw))"
proof (cases "inner p raw")
  case (Pair "is" st)
  then show ?thesis by (cases st) (simp_all add: refine_def)
qed

lemma status_value_z_string_Min [simp]:
  "status_value (snd (z_string [Min n m] p raw)) = raw"
  by (cases raw) (simp_all add: z_string_def)

lemma status_value_z_enum:
  "status_value (snd (z_enum vs e p raw)) =
     (case raw of None \<Rightarrow> None | Some s \<Rightarrow> if s \<in> set vs then Some s else None)"
  by (cases raw) (simp_all add: z_enum_def)

lemma status_value_z_default_boolean:
  "status_value (snd (z_default (RawBoolean d) z_boolean p raw)) =
     (case raw of
        None \<Rightarrow> Some d
      | Some (RawBoolean b) \<Rightarrow> Some b
      | Some RawNotBoolean \<Rightarrow> None)"
  by (simp add: z_default_def z_boolean_def split: option.splits raw_boolean.splits)

lemma status_value_None_iff: "status_value s = None \<longleftrightarrow> s = ABORTED"
  by (cases s) simp_all

lemma status_value_phoneNumberSchema:
  assumes "spec_phone_entry_parses r"
  shows "\<exists>v. status_value (snd (phoneNumberSchema p r)) = Some v \<and> isMain v = raw_main r"
  using assms
  by (auto simp: phoneNumberSchema_def phoneTypeEnum_def status_value_pair_status
        status_value_z_enum status_value_z_default_boolean spec_in_enum_def raw_main_def
        spec_phone_entry_parses_def spec_boolean_or_absent_def
        split: option.splits raw_boolean.splits)

lemma phoneNumberSchema_ABORTED:
  assumes "\<not> spec_phone_entry_parses r"
  shows "snd (phoneNumberSchema p r) = ABORTED"
proof -
  have "status_value (snd (phoneNumberSchema p r)) = None"
    using assms
    by (auto simp: phoneNumberSchema_def phoneTypeEnum_def status_value_pair_status
          status_value_z_enum status_value_z_default_boolean spec_in_enum_def
          spec_phone_entry_parses_def spec_boolean_or_absent_def
          split: option.splits raw_boolean.splits)
  then show ?thesis by (simp add: status_value_None_iff)
qed

lemma fst_superRefine_value:
  assumes "status_value (snd (inner p raw)) = Some v"
  shows "set (map (\<lambda>i. i\<lparr>path := p @ path i\<rparr>) (f v)) \<subseteq> set (fst (superRefine f inner p raw))"
proof (cases "inner p raw")
  case (Pair "is" st)
  with assms show ?thesis by (cases st) (auto simp: superRefine_def)
qed

lemma mainPhoneRule_paths:
  "map path (mainPhoneRule phones) =
     (if length (filter isMain phones) = 0 then [ [] ]
      else if length (filter isMain phones) > 1
      then map (\<lambda>i. [Idx i, Key ''isMain'']) (filter (\<lambda>i. isMain (phones ! i)) [0..<length phones])
      else [])"
  by (simp add: mainPhoneRule_def Let_def forEach_main_eq comp_def)

lemma z_array_phones_value:
  assumes "spec_phone_entries_parse (Some xs)"
  shows "\<exists>vs. status_value (snd (z_array n m phoneNumberSchema p (Some xs))) = Some vs
              \<and> map isMain vs = map raw_main xs"
proof -
  let ?rs = "map snd (map (\<lambda>(i, x). phoneNumberSchema (p @ [Idx i]) x) (enumerate 0 xs))"
  have each: "\<exists>v. status_value (snd (phoneNumberSchema (p @ [Idx i]) (xs ! i))) = Some v
                  \<and> isMain v = raw_main (xs ! i)" if "i < length xs" for i
    using assms that
    by (intro status_value_phoneNumberSchema)
       (simp add: spec_phone_entries_parse_def list_all_length)
  have nth: "?rs ! i = snd (phoneNumberSchema (p @ [Idx i]) (xs ! i))" if "i < length xs" for i
    using that by (simp add: nth_enumerate_eq)
  have ok: "list_all (\<lambda>r. status_value r \<noteq> None) ?rs"
    unfolding list_all_length
  proof (intro allI impI)
    fix i
    assume "i < length ?rs"
    then have i: "i < length xs" by simp
    from each [OF i] show "status_value (?rs ! i) \<noteq> None"
      unfolding nth [OF i] by auto
  qed
  have "map isMain (map (\<lambda>r. the (status_value r)) ?rs) = map raw_main xs"
  proof (rule nth_equalityI)
    show "length (map isMain (map (\<lambda>r. the (status_value r)) ?rs)) = length (map raw_main xs)"
      by simp
  next
    fix i
    assume "i < length (map isMain (map (\<lambda>r. the (status_value r)) ?rs))"
    then have i: "i < length xs" by simp
    then have "map isMain (map (\<lambda>r. the (status_value r)) ?rs) ! i
               = isMain (the (status_value (?rs ! i)))"
      by simp
    also have "\<dots> = raw_main (xs ! i)"
      using each [OF i] unfolding nth [OF i] by auto
    finally show "map isMain (map (\<lambda>r. the (status_value r)) ?rs) ! i = map raw_main xs ! i"
      using i by simp
  qed
  then show ?thesis
    using status_value_mergeArray [OF ok] by (simp add: z_array_def Let_def)
qed


lemma mainPhoneRule_paths_raw:
  assumes "map isMain vs = map raw_main xs"
  shows "map (\<lambda>q. [Key ''phoneNumbers''] @ q) (map path (mainPhoneRule vs))
         = spec_main_phone_paths (Some xs)"
proof -
  from assms have len: "length vs = length xs"
    by (rule map_eq_imp_length_eq)
  have "length (filter isMain vs) = length (filter (\<lambda>b. b) (map isMain vs))"
    by (simp add: filter_map comp_def)
  also have "\<dots> = length (filter raw_main xs)"
    unfolding assms by (simp add: filter_map comp_def)
  finally have cnt: "length (filter isMain vs) = length (filter raw_main xs)" .
  have nth: "isMain (vs ! i) = raw_main (xs ! i)" if "i < length xs" for i
  proof -
    have "isMain (vs ! i) = map isMain vs ! i" using that len by simp
    also have "\<dots> = raw_main (xs ! i)" unfolding assms using that by simp
    finally show ?thesis .
  qed
  have idx: "filter (\<lambda>i. isMain (vs ! i)) [0..<length vs]
             = filter (\<lambda>i. raw_main (xs ! i)) [0..<length xs]"
    unfolding len by (rule filter_cong) (simp_all add: nth)
  show ?thesis
    unfolding mainPhoneRule_paths cnt idx
    by (simp add: spec_main_phone_paths_def)
qed

lemma covers_main_phone:
  assumes "spec_phone_entries_parse (raw_phoneNumbers raw)"
  shows "set (spec_main_phone_paths (raw_phoneNumbers raw))
         \<subseteq> path ` set (fst (patientSchema f [] raw))"
proof -
  from assms obtain xs where xs: "raw_phoneNumbers raw = Some xs"
    by (cases "raw_phoneNumbers raw") (simp_all add: spec_phone_entries_parse_def)
  let ?inner = "z_array 1 (Msg ''At least one phone number is required'') phoneNumberSchema"
  from z_array_phones_value [OF assms [unfolded xs]]
  obtain vs where vs: "status_value (snd (?inner [Key ''phoneNumbers''] (Some xs))) = Some vs"
    and m: "map isMain vs = map raw_main xs"
    by blast
  have "set (spec_main_phone_paths (Some xs))
        = path ` set (map (\<lambda>i. i\<lparr>path := [Key ''phoneNumbers''] @ path i\<rparr>) (mainPhoneRule vs))"
    unfolding mainPhoneRule_paths_raw [OF m, symmetric] by (simp add: image_image)
  also have "\<dots> \<subseteq> path ` set (fst (superRefine mainPhoneRule ?inner [Key ''phoneNumbers'']
                                       (Some xs)))"
    by (rule image_mono)
       (rule fst_superRefine_value [where inner = ?inner and f = mainPhoneRule, OF vs])
  also have "\<dots> \<subseteq> path ` set (fst (patientSchema f [] raw))"
    by (rule image_mono) (auto simp: patientSchema_def xs)
  finally show ?thesis unfolding xs .
qed

lemma validate_issues:
  assumes "fst (patientSchema f [] raw) \<noteq> []"
  shows "validate f raw = Failure (fst (patientSchema f [] raw))"
proof (rule validate_Failure)
  show "\<not> is_valid (snd (patientSchema f [] raw))"
    using consistent_patientSchema [where f = f and p = "[]" and raw = raw] assms
    by (simp add: consistent_def)
qed

lemma issues_sample_fax:
  "fst (patientSchema sample_string_to_number [] sample_raw_fax)
   = [mk_issue invalid_enum_value [Key ''phoneNumbers'', Idx 0, Key ''type''] DefaultMsg]"
proof -
  have i: "fst (refine (\<lambda>s. isValidIsraeliId (Some s)) (Msg ''Invalid Israeli ID number'')
                 (z_string [Length 9 (Msg ''ID must be exactly 9 digits'')])
                 [Key ''id''] (Some (js ''000000018''))) = []"
    using id_000000018 by (simp add: refine_def z_string_def js_Nil js_Cons)
  have f: "fst (z_string [Trim, Min 1 (Msg ''First name is required'')]
                 [Key ''firstName''] (Some (js '' Dana ''))) = []"
    by (simp add: z_string_def js_Nil js_Cons js_trim_def is_js_whitespace_def)
  have l: "fst (z_string [Trim, Min 1 (Msg ''Last name is required'')]
                 [Key ''lastName''] (Some (js ''Levi''))) = []"
    by (simp add: z_string_def js_Nil js_Cons js_trim_def is_js_whitespace_def)
  have p: "fst (superRefine mainPhoneRule
                 (z_array 1 (Msg ''At least one phone number is required'') phoneNumberSchema)
                 [Key ''phoneNumbers'']
                 (Some [\<lparr>raw_type = Some (js ''Fax''), raw_number = Some (js ''050-123-4567''),
                         raw_isMain = Some (RawBoolean False)\<rparr>]))
           = [mk_issue invalid_enum_value [Key ''phoneNumbers'', Idx 0, Key ''type''] DefaultMsg]"
    by (simp add: superRefine_def z_array_def phoneNumberSchema_def phoneTypeEnum_def z_enum_def
          refine_def z_string_def z_default_def z_boolean_def js_Nil js_Cons
          isValidIsraeliPhoneNumber_Some cleaned_def spec_domestic_phone_def
          spec_phone_prefix_def is_digit_def)
  have h: "fst (hmoEnum [Key ''hmo''] (Some (js ''Clalit''))) = []"
    by (simp add: hmoEnum_def z_enum_def js_Nil js_Cons)
  have a: "fst (z_array 1 (Msg ''At least one address is required'')
                 (addressSchema sample_string_to_number) [Key ''addresses'']
                 (Some
                   [\<lparr>raw_cityCode = Some (js ''3000''), raw_cityName = Some (js ''Jerusalem''),
                     raw_streetCode = Some (js ''101''), raw_streetName = Some (js ''Herzl''),
                     raw_streetNumber = RawString (js ''12''),
                     raw_addressType = Some (js ''Home''), raw_comments = None\<rparr>])) = []"
    by (simp add: z_array_def addressSchema_def addressTypeEnum_def z_enum_def z_string_def
          z_optional_def z_coerce_number_def Let_def
          sample_string_to_number_def js_Nil js_Cons)
  show ?thesis
    unfolding patientSchema_def fst_object fst_field
    by (simp add: sample_raw_fax_def sample_raw_patient_def i f l p h a del: One_nat_def)
qed


lemma issues_sample_invalid:
  "fst (patientSchema sample_string_to_number [] sample_raw_invalid) = sample_issues"
proof -
  have i: "fst (refine (\<lambda>s. isValidIsraeliId (Some s)) (Msg ''Invalid Israeli ID number'')
                 (z_string [Length 9 (Msg ''ID must be exactly 9 digits'')])
                 [Key ''id''] (Some (js ''123456789'')))
           = [mk_issue custom [Key ''id''] (Msg ''Invalid Israeli ID number'')]"
    using id_123456789 by (simp add: refine_def z_string_def js_Nil js_Cons)
  have f: "fst (z_string [Trim, Min 1 (Msg ''First name is required'')]
                 [Key ''firstName''] (Some (js ''  '')))
           = [mk_issue too_small [Key ''firstName''] (Msg ''First name is required'')]"
    by (simp add: z_string_def js_Nil js_Cons js_trim_def is_js_whitespace_def)
  have l: "fst (z_string [Trim, Min 1 (Msg ''Last name is required'')]
                 [Key ''lastName''] (Some (js ''Levi''))) = []"
    by (simp add: z_string_def js_Nil js_Cons js_trim_def is_js_whitespace_def)
  have p: "fst (superRefine mainPhoneRule
                 (z_array 1 (Msg ''At least one phone number is required'') phoneNumberSchema)
                 [Key ''phoneNumbers'']
                 (Some [\<lparr>raw_type = Some (js ''Home''), raw_number = Some (js ''1234567''),
                         raw_isMain = None\<rparr>]))
           = [mk_issue custom [Key ''phoneNumbers'', Idx 0, Key ''number'']
                (Msg ''Invalid Israeli phone number format''),
              mk_issue custom [Key ''phoneNumbers'']
                (Msg ''One phone number must be marked as main.'')]"
    by (simp add: superRefine_def z_array_def phoneNumberSchema_def phoneTypeEnum_def z_enum_def
          refine_def z_string_def z_default_def z_boolean_def js_Nil js_Cons
          isValidIsraeliPhoneNumber_Some cleaned_def spec_domestic_phone_def
          spec_phone_prefix_def is_digit_def mainPhoneRule_def mk_issue_def)
  have h: "fst (hmoEnum [Key ''hmo''] (Some (js ''Clalit''))) = []"
    by (simp add: hmoEnum_def z_enum_def js_Nil js_Cons)
  have a: "fst (z_array 1 (Msg ''At least one address is required'')
                 (addressSchema sample_string_to_number) [Key ''addresses'']
                 (Some
                   [\<lparr>raw_cityCode = Some (js ''3000''), raw_cityName = Some (js ''Jerusalem''),
                     raw_streetCode = Some (js ''101''), raw_streetName = Some (js ''Herzl''),
                     raw_streetNumber = RawString (js ''twelve''),
                     raw_addressType = Some (js ''Home''), raw_comments = None\<rparr>]))
           = [mk_issue invalid_type [Key ''addresses'', Idx 0, Key ''streetNumber'']
                (Msg ''Street number must be a number'')]"
    by (simp add: z_array_def addressSchema_def addressTypeEnum_def z_enum_def z_string_def
          z_optional_def z_coerce_number_def Let_def
          sample_string_to_number_def js_Nil js_Cons)
  show ?thesis
    unfolding patientSchema_def fst_object fst_field
    by (simp add: sample_raw_invalid_def sample_issues_def i f l p h a del: One_nat_def)
qed

section \<open>When the main-phone rule is not evaluated\<close>

lemma mergeArray_ABORTED: "ABORTED \<in> set rs \<Longrightarrow> mergeArray d rs = ABORTED"
proof (induction rs arbitrary: d)
  case Nil
  then show ?case by simp
next
  case (Cons r rs)
  then show ?case by (cases r) auto
qed

lemma z_array_phones_ABORTED:
  assumes "\<not> spec_phone_entries_parse raw"
  shows "snd (z_array n m phoneNumberSchema p raw) = ABORTED"
proof (cases raw)
  case None
  then show ?thesis by (simp add: z_array_def)
next
  case (Some xs)
  with assms obtain i where i: "i < length xs" and n: "\<not> spec_phone_entry_parses (xs ! i)"
    by (auto simp: spec_phone_entries_parse_def list_all_length)
  let ?rs = "map snd (map (\<lambda>(i, x). phoneNumberSchema (p @ [Idx i]) x) (enumerate 0 xs))"
  have "?rs ! i = snd (phoneNumberSchema (p @ [Idx i]) (xs ! i))"
    using i by (simp add: nth_enumerate_eq)
  then have "?rs ! i = ABORTED"
    using phoneNumberSchema_ABORTED [OF n] by simp
  moreover have "i < length ?rs" using i by simp
  ultimately have "ABORTED \<in> set ?rs"
    by (metis nth_mem)
  then show ?thesis
    using Some by (simp add: z_array_def Let_def mergeArray_ABORTED)
qed

lemma superRefine_ABORTED:
  assumes "snd (inner p raw) = ABORTED"
  shows "fst (superRefine f inner p raw) = fst (inner p raw)"
  using assms by (cases "inner p raw") (simp add: superRefine_def)

lemma rule_free_Nil [simp]: "rule_free []"
  by (simp add: rule_free_def)

lemma rule_free_append [simp]: "rule_free (a @ b) = (rule_free a \<and> rule_free b)"
  by (simp add: rule_free_def)

lemma rule_free_Cons [simp]:
  "rule_free (mk_issue c p m # is) = (m \<notin> set main_phone_messages \<and> rule_free is)"
  by (simp add: rule_free_def mk_issue_def)

lemma DefaultMsg_rule_free [simp]: "DefaultMsg \<notin> set main_phone_messages"
  by (simp add: main_phone_messages_def)

lemma rule_free_z_string_Min:
  "m \<notin> set main_phone_messages \<Longrightarrow> rule_free (fst (z_string [Min n m] p raw))"
  by (cases raw) (simp_all add: z_string_def)

lemma rule_free_z_string_Length:
  "m \<notin> set main_phone_messages \<Longrightarrow> rule_free (fst (z_string [Length n m] p raw))"
  by (cases raw) (simp_all add: z_string_def)

lemma rule_free_z_string_Trim_Min:
  "m \<notin> set main_phone_messages \<Longrightarrow> rule_free (fst (z_string [Trim, Min n m] p raw))"
  by (cases raw) (simp_all add: z_string_def)

lemma rule_free_z_optional_Max:
  "m \<notin> set main_phone_messages \<Longrightarrow> rule_free (fst (z_optional (z_string [Max n m]) p raw))"
  by (cases raw) (simp_all add: z_optional_def z_string_def Let_def)

lemma rule_free_z_enum:
  "e \<notin> set main_phone_messages \<Longrightarrow> rule_free (fst (z_enum vs e p raw))"
  by (cases raw) (simp_all add: z_enum_def)

lemma rule_free_z_default_boolean: "rule_free (fst (z_default d z_boolean p raw))"
  by (simp add: z_default_def z_boolean_def split: option.splits raw_boolean.splits)

lemma rule_free_streetNumber:
  assumes "e \<notin> set main_phone_messages" "a \<notin> set main_phone_messages"
    "b \<notin> set main_phone_messages" "c \<notin> set main_phone_messages"
  shows "rule_free (fst (z_coerce_number f e
                           [IntCheck a, MinCheck x i b, MinCheck y j c] p raw))"
  using assms by (simp add: z_coerce_number_def Let_def)

lemma rule_free_refine:
  assumes "m \<notin> set main_phone_messages" "rule_free (fst (inner p raw))"
  shows "rule_free (fst (refine check m inner p raw))"
proof (cases "inner p raw")
  case (Pair "is" st)
  with assms show ?thesis by (cases st) (simp_all add: refine_def)
qed

lemma rule_free_z_array:
  assumes "m \<notin> set main_phone_messages" "\<And>q x. rule_free (fst (element q x))"
  shows "rule_free (fst (z_array n m element p raw))"
proof (cases raw)
  case None
  then show ?thesis by (simp add: z_array_def)
next
  case (Some xs)
  have "rule_free (concat (map fst (map (\<lambda>(i, x). element (p @ [Idx i]) x) (enumerate 0 xs))))"
    using assms(2) by (auto simp: rule_free_def list_all_iff)
  then show ?thesis
    using Some assms(1) by (simp add: z_array_def Let_def)
qed

lemma rule_free_phoneNumberSchema: "rule_free (fst (phoneNumberSchema p r))"
  unfolding phoneNumberSchema_def phoneTypeEnum_def fst_object fst_field rule_free_append
  by (intro conjI rule_free_z_enum rule_free_refine rule_free_z_string_Min
        rule_free_z_default_boolean)
     (simp_all add: main_phone_messages_def)

lemma rule_free_addressSchema: "rule_free (fst (addressSchema f p r))"
  unfolding addressSchema_def addressTypeEnum_def fst_object fst_field rule_free_append
  by (intro conjI rule_free_z_enum rule_free_z_string_Min rule_free_streetNumber
        rule_free_z_optional_Max)
     (simp_all add: main_phone_messages_def)

lemma rule_free_patientSchema:
  assumes "\<not> spec_phone_entries_parse (raw_phoneNumbers raw)"
  shows "rule_free (fst (patientSchema f p raw))"
proof -
  have ph: "fst (superRefine mainPhoneRule
                  (z_array 1 (Msg ''At least one phone number is required'') phoneNumberSchema)
                  (p @ [Key ''phoneNumbers'']) (raw_phoneNumbers raw))
            = fst (z_array 1 (Msg ''At least one phone number is required'') phoneNumberSchema
                  (p @ [Key ''phoneNumbers'']) (raw_phoneNumbers raw))"
    by (rule superRefine_ABORTED) (rule z_array_phones_ABORTED [OF assms])
  show ?thesis
    unfolding patientSchema_def hmoEnum_def fst_object fst_field rule_free_append ph
    by (intro conjI rule_free_refine rule_free_z_string_Length rule_free_z_string_Trim_Min
          rule_free_z_array rule_free_z_enum rule_free_phoneNumberSchema
          rule_free_addressSchema)
       (simp_all add: main_phone_messages_def)
qed

lemma issues_sample_null_main:
  "fst (patientSchema sample_string_to_number [] sample_raw_null_main)
   = [mk_issue invalid_type [Key ''phoneNumbers'', Idx 0, Key ''isMain''] DefaultMsg]"
proof -
  have i: "fst (refine (\<lambda>s. isValidIsraeliId (Some s)) (Msg ''Invalid Israeli ID number'')
                 (z_string [Length 9 (Msg ''ID must be exactly 9 digits'')])
                 [Key ''id''] (Some (js ''000000018''))) = []"
    using id_000000018 by (simp add: refine_def z_string_def js_Nil js_Cons)
  have f: "fst (z_string [Trim, Min 1 (Msg ''First name is required'')]
                 [Key ''firstName''] (Some (js '' Dana ''))) = []"
    by (simp add: z_string_def js_Nil js_Cons js_trim_def is_js_whitespace_def)
  have l: "fst (z_string [Trim, Min 1 (Msg ''Last name is required'')]
                 [Key ''lastName''] (Some (js ''Levi''))) = []"
    by (simp add: z_string_def js_Nil js_Cons js_trim_def is_js_whitespace_def)
  have p: "fst (superRefine mainPhoneRule
                 (z_array 1 (Msg ''At least one phone number is required'') phoneNumberSchema)
                 [Key ''phoneNumbers'']
                 (Some [\<lparr>raw_type = Some (js ''Home''), raw_number = Some (js ''02-1234567''),
                         raw_isMain = Some RawNotBoolean\<rparr>]))
           = [mk_issue invalid_type [Key ''phoneNumbers'', Idx 0, Key ''isMain''] DefaultMsg]"
    by (simp add: superRefine_def z_array_def phoneNumberSchema_def phoneTypeEnum_def z_enum_def
          refine_def z_string_def z_default_def z_boolean_def js_Nil js_Cons
          isValidIsraeliPhoneNumber_Some cleaned_def spec_domestic_phone_def
          spec_phone_prefix_def is_digit_def)
  have h: "fst (hmoEnum [Key ''hmo''] (Some (js ''Clalit''))) = []"
    by (simp add: hmoEnum_def z_enum_def js_Nil js_Cons)
  have a: "fst (z_array 1 (Msg ''At least one address is required'')
                 (addressSchema sample_string_to_number) [Key ''addresses'']
                 (Some
                   [\<lparr>raw_cityCode = Some (js ''3000''), raw_cityName = Some (js ''Jerusalem''),
                     raw_streetCode = Some (js ''101''), raw_streetName = Some (js ''Herzl''),
                     raw_streetNumber = RawString (js ''12''),
                     raw_addressType = Some (js ''Home''), raw_comments = None\<rparr>])) = []"
    by (simp add: z_array_def addressSchema_def addressTypeEnum_def z_enum_def z_string_def
          z_optional_def z_coerce_number_def Let_def
          sample_string_to_number_def js_Nil js_Cons)
  show ?thesis
    unfolding patientSchema_def fst_object fst_field
    by (simp add: sample_raw_null_main_def sample_raw_patient_def i f l p h a del: One_nat_def)
qed

lemma validate_Throws: "validate f raw \<noteq> Throws"
proof (cases "is_valid (snd (patientSchema f [] raw))")
  case True
  then obtain v where "snd (patientSchema f [] raw) = VALID v"
    by (auto simp: is_valid_iff)
  then have "validate f raw = Success v"
    by (simp add: validate_Success_iff)
  then show ?thesis by simp
next
  case False
  then show ?thesis by (simp add: validate_Failure)
qed

lemma validate_Failure_issues:
  assumes "validate f raw = Failure is"
  shows "is = fst (patientSchema f [] raw)" and "is \<noteq> []"
proof -
  have nv: "\<not> is_valid (snd (patientSchema f [] raw))"
  proof
    assume "is_valid (snd (patientSchema f [] raw))"
    then obtain v where "snd (patientSchema f [] raw) = VALID v"
      by (auto simp: is_valid_iff)
    then have "validate f raw = Success v"
      by (simp add: validate_Success_iff)
    with assms show False by simp
  qed
  from validate_Failure [OF nv] assms show "is = fst (patientSchema f [] raw)"
    by simp
  then show "is \<noteq> []"
    using nv consistent_patientSchema [where f = f and p = "[]" and raw = raw]
    by (simp add: consistent_def)
qed

lemma phoneNumberSchema_VALID_parses:
  assumes "snd (phoneNumberSchema p r) = VALID v"
  shows "spec_phone_entry_parses r"
  using assms
  by (auto simp: phoneNumberSchema_VALID spec_phone_entry_parses_def spec_in_enum_def
        spec_boolean_or_absent_def)

lemma Success_phone_entries_parse:
  assumes "validate f raw = Success v"
  shows "spec_phone_entries_parse (raw_phoneNumbers raw)"
proof -
  from assms
  have "snd (z_array 1 (Msg ''At least one phone number is required'') phoneNumberSchema
              ([] @ [Key ''phoneNumbers'']) (raw_phoneNumbers raw)) = VALID (phoneNumbers v)"
    by (simp add: validate_Success_iff patientSchema_VALID)
  then obtain xs where xs: "raw_phoneNumbers raw = Some xs"
    and each: "\<forall>i < length xs. snd (phoneNumberSchema (([] @ [Key ''phoneNumbers'']) @ [Idx i])
                                      (xs ! i)) = VALID (phoneNumbers v ! i)"
    unfolding z_array_VALID_iff by blast
  show ?thesis
    unfolding xs spec_phone_entries_parse_def option.case list_all_length
    using each phoneNumberSchema_VALID_parses by blast
qed




section \<open>The short-query guard\<close>

lemma length_js_trim: "length (js_trim s) \<le> length s"
proof -
  have "length (js_trim s) \<le> length (dropWhile is_js_whitespace s)"
    unfolding js_trim_def length_rev
    using length_dropWhile_le [of is_js_whitespace "rev (dropWhile is_js_whitespace s)"]
    by simp
  also have "\<dots> \<le> length s" by (rule length_dropWhile_le)
  finally show ?thesis .
qed

text \<open>
  Claim C8. For a query of length 0 or 1, \<open>fetchCities\<close> and \<open>fetchStreets\<close> return the
  empty list and issue no request, whatever the network would answer and whatever the
  city code is.
\<close>

theorem C8_short_query:
  assumes "length query \<le> 1"
  shows "fetchCities e net query sig = (Inr [], [])
         \<and> fetchStreets e net' query cityCode' sig = (Inr [], [])"
proof -
  have "length (js_trim query) < 2"
    using length_js_trim [of query] assms by simp
  then show ?thesis
    by (simp add: fetchCities_def fetchStreets_def Let_def)
qed

theorem C8_short_query_witness:
  "length (js ''a'') \<le> 1
   \<and> fetchCities sample_env sample_net (js ''a'') None = (Inr [], [])
   \<and> fetchStreets sample_env sample_street_net (js ''a'') None None = (Inr [], [])
   \<and> fetchCities sample_env sample_net (js ''ab'') None
       = (Inr [sample_city],
          [\<lparr>url = CITIES_API_URL sample_env, resource_id = CITIES_RESOURCE_ID sample_env,
            q = js ''ab'', filters = None, limit = 20, signal = None\<rparr>])"
proof -
  have l: "length (js ''a'') \<le> 1"
    by (simp add: js_Nil js_Cons)
  have two: "fetchCities sample_env sample_net (js ''ab'') None
       = (Inr [sample_city],
          [\<lparr>url = CITIES_API_URL sample_env, resource_id = CITIES_RESOURCE_ID sample_env,
            q = js ''ab'', filters = None, limit = 20, signal = None\<rparr>])"
    by (simp add: fetchCities_def Let_def sample_net_def unique_by_def js_Nil js_Cons
          js_trim_def is_js_whitespace_def)
  from C8_short_query [OF l, of sample_env sample_net None sample_street_net None] l two
  show ?thesis by simp
qed

end
